theory Spec2Isabelle
  imports Main "HOL-Library.Word"
begin

unbundle bit_operations_syntax

section \<open>Fast arithmetic helpers\<close>

text \<open>
  The sensor delivers 3-axis samples of type \<open>lis2dw_reading_t\<close>: three \<open>int16_t\<close>
  fields.  A 16-bit value is a \<open>16 word\<close>; \<open>sint\<close> reads it as the signed number
  the C code sees, \<open>uint\<close> as the unsigned one.
\<close>

record lis2dw_reading =
  x :: "16 word"
  y :: "16 word"
  z :: "16 word"

text \<open>
  \<open>fast_abs16\<close>: the operand \<open>x\<close> is promoted to the 32-bit \<open>int\<close> before the
  arithmetic shift (\<open>scast\<close> sign-extends, \<open>signed_drop_bit\<close> is \<open>>>\<close> on a signed
  value), the result of the shift is stored in an \<open>int16_t\<close>, the addition and the
  exclusive or are done on \<open>int\<close> again, and the \<open>return\<close> converts to \<open>uint16_t\<close>
  (\<open>ucast\<close> truncates).
\<close>

definition fast_abs16 :: "16 word \<Rightarrow> 16 word" where
  "fast_abs16 v =
     (let mask = (ucast (signed_drop_bit 15 (scast v :: 32 word)) :: 16 word)
      in ucast (((scast v :: 32 word) + scast mask) XOR (scast mask :: 32 word)))"

text \<open>
  \<open>bitwise_abs\<close> of the benchmark file: the same computation written as
  \<open>(x ^ mask) - mask\<close> on an \<open>int32_t\<close> argument, returned as \<open>uint32_t\<close>.
\<close>

definition bitwise_abs :: "32 word \<Rightarrow> 32 word" where
  "bitwise_abs v = (let mask = signed_drop_bit 31 v in (v XOR mask) - mask)"

text \<open>The three conditional swaps of \<open>fast_l2_norm\<close>, on the triple \<open>(ax, ay, az)\<close>.\<close>

definition sort3 :: "'a::linorder \<times> 'a \<times> 'a \<Rightarrow> 'a \<times> 'a \<times> 'a" where
  "sort3 t =
     (let (ax, ay, az) = t;
          (ax, ay) = (if ax < ay then (ay, ax) else (ax, ay));
          (ay, az) = (if ay < az then (az, ay) else (ay, az));
          (ax, ay) = (if ax < ay then (ay, ax) else (ax, ay))
      in (ax, ay, az))"

text \<open>
  \<open>fast_l2_norm\<close>: the \<open>uint16_t\<close> operands are promoted to \<open>int\<close> (zero extension,
  \<open>ucast\<close>); the products and the sum stay below \<open>2^31\<close>, so the right shifts act on
  non-negative values and are \<open>drop_bit\<close>; the result is a \<open>uint32_t\<close>.
\<close>

definition fast_l2_norm :: "lis2dw_reading \<Rightarrow> 32 word" where
  "fast_l2_norm reading =
     (let (ax, ay, az) = sort3 (fast_abs16 (x reading), fast_abs16 (y reading),
                                fast_abs16 (z reading))
      in (ucast ax :: 32 word) + drop_bit 4 (15 * ucast ay) + drop_bit 3 (3 * ucast az))"

definition fast_l1_norm :: "lis2dw_reading \<Rightarrow> 32 word" where
  "fast_l1_norm reading =
     (ucast (fast_abs16 (x reading)) :: 32 word) + ucast (fast_abs16 (y reading))
       + ucast (fast_abs16 (z reading))"


text \<open>
  \<open>approx_l2_norm\<close> of the benchmark file, the reference of the approximation: the
  three \<open>int32_t\<close> inputs go through \<open>abs\<close> of the C library (\<open>int_abs32\<close>; its result
  is stored in a \<open>uint32_t\<close>), are sorted by the same three swaps, and are combined in
  \<open>uint32_t\<close> arithmetic.
\<close>

definition int_abs32 :: "32 word \<Rightarrow> 32 word" where
  "int_abs32 v = (if sint v < 0 then - v else v)"

definition approx_l2_norm :: "32 word \<Rightarrow> 32 word \<Rightarrow> 32 word \<Rightarrow> 32 word" where
  "approx_l2_norm x0 x1 x2 =
     (let (ax, ay, az) = sort3 (int_abs32 x0, int_abs32 x1, int_abs32 x2)
      in ax + drop_bit 4 (15 * ay) + drop_bit 3 (3 * az))"

text \<open>
  The approximate norm as the specification words it: absolute values of the three
  axes, sorted descending as \<open>a \<ge> b \<ge> c\<close>, then
  \<open>a + floor (15 * b / 16) + floor (3 * c / 8)\<close>, over the mathematical integers.
\<close>

definition approx_l2_spec :: "int \<Rightarrow> int \<Rightarrow> int \<Rightarrow> int" where
  "approx_l2_spec vx vy vz =
     (case rev (sort [\<bar>vx\<bar>, \<bar>vy\<bar>, \<bar>vz\<bar>]) of
        [a, b, c] \<Rightarrow> a + (15 * b) div 16 + (3 * c) div 8
      | _ \<Rightarrow> 0)"

text \<open>
  The mask identity as the specification names it, \<open>(x ^ (x>>15)) - (x>>15)\<close>, with
  the same integer promotions as \<open>fast_abs16\<close> and the result cut to 16 bits.
\<close>

definition mask_abs16 :: "16 word \<Rightarrow> 16 word" where
  "mask_abs16 v =
     (let mask = signed_drop_bit 15 (scast v :: 32 word)
      in ucast (((scast v :: 32 word) XOR mask) - mask))"

section \<open>The watch face and its collaborators\<close>

datatype stepcounter_logging_page = PAGE_RECORDING | PAGE_LABELING | PAGE_CHIRPING

text \<open>
  \<open>tick_fun\<close> is a function pointer in the C code; its three possible values are the
  null pointer (after \<open>memset\<close>) and the two tick functions of this file.
\<close>

datatype tick_fun = Tick_null | Chirp_countdown_tick | Chirp_tick_transmit

text \<open>
  The buzzer period is looked up in tables of the sound and tone libraries; the model
  keeps the key of the lookup.
\<close>

datatype buzzer_period = Period_unset | Period_note_A5 | Period_note_C7 | Period_tone "8 word"

datatype movement_event =
    EVENT_ACTIVATE | EVENT_TICK
  | EVENT_LIGHT_BUTTON_DOWN | EVENT_LIGHT_LONG_PRESS
  | EVENT_MODE_BUTTON_UP
  | EVENT_ALARM_BUTTON_DOWN | EVENT_ALARM_BUTTON_UP | EVENT_ALARM_LONG_PRESS
  | EVENT_OTHER

record lis2dw_fifo =
  readings :: "lis2dw_reading list"
  count :: "8 word"

text \<open>
  One record holds everything a handler can read or change: the fields of
  \<open>stepcounter_logging_state_t\<close>, the three file-scope chirp variables, and the state of
  the external collaborators (file system, allocator, sensor, clock, buzzer, host,
  tone encoder).  The collaborators are not part of the repository; their model is the
  interface the handlers use:

  \<^item> the log file is a byte list (\<open>None\<close> while the file does not exist), \<open>file_open\<close>
    says whether the handle \<open>state->file\<close> is open, and \<open>free_space\<close> is what
    \<open>filesystem_get_free_space\<close> reports;
  \<^item> \<open>open_results\<close> and \<open>write_results\<close> list what the coming calls of
    \<open>lfs_file_open\<close> and \<open>lfs_file_write\<close> return, so that every failure of the file
    system is an input; with an empty list a call succeeds;
  \<^item> \<open>heap\<close> lists the live allocations (address and contents, address 0 is the null
    pointer), \<open>malloc_fails\<close> says whether the next \<open>malloc\<close> returns null,
    \<open>read_fails\<close> whether \<open>filesystem_read_file\<close> fails, and \<open>mem_fault\<close> records an
    access through an invalid pointer or a \<open>free\<close> of an address that is not live;
  \<^item> \<open>encoder_script\<close> lists, for the coming calls of \<open>chirpy_get_next_tone\<close>, how
    many bytes the encoder pulls through its callback and which tone it returns; an
    exhausted encoder returns the sentinel 255.

  Rendering (\<open>printf\<close> and the display functions) changes none of these fields and is
  left out.
\<close>

record machine =
  start_ts :: "32 word"
  data_type :: "8 word"
  index :: "8 word"
  error :: "8 word"
  steps :: "16 word"
  page :: stepcounter_logging_page
  file_open :: bool
  tick_count :: "16 word"
  tick_compare :: "16 word"
  seq_pos :: "16 word"
  tick_fun :: tick_fun
  chirping :: bool
  chirp_data_ptr :: nat
  chirp_data_ix :: "16 word"
  chirp_data_len :: "16 word"
  log_file :: "8 word list option"
  free_space :: int
  open_results :: "int list"
  write_results :: "int list"
  read_fails :: bool
  heap :: "(nat \<times> 8 word list) list"
  malloc_fails :: bool
  mem_fault :: bool
  sensor_fifo :: lis2dw_fifo
  fifo_enabled :: bool
  now_ts :: "32 word"
  device_state :: "8 word list"
  button_sound :: bool
  buzzer_on :: bool
  buzzer_period :: buzzer_period
  beeps :: nat
  tick_frequency :: nat
  bell_indicator :: bool
  encoder_script :: "(nat \<times> 8 word) list"

subsection \<open>Constants\<close>

definition LOG_FILE_MARKER :: "8 word" where "LOG_FILE_MARKER = 0xff"
definition LOG_MAGIC_BYTES :: "16 word" where "LOG_MAGIC_BYTES = 0x4223"
definition LOG_VERSION :: "8 word" where "LOG_VERSION = 0x01"
definition ERROR_OPEN_FILE :: "8 word" where "ERROR_OPEN_FILE = 0x01"
definition ERROR_READ_FILE :: "8 word" where "ERROR_READ_FILE = 0x02"
definition ERROR_WRITE_HEADER :: "8 word" where "ERROR_WRITE_HEADER = 0x03"
definition ERROR_WRITE_DATA :: "8 word" where "ERROR_WRITE_DATA = 0x05"
definition ERROR_ALLOC_MEM :: "8 word" where "ERROR_ALLOC_MEM = 0x06"
definition MIN_FS_SPACE :: int where "MIN_FS_SPACE = 512"
definition LOG_DATA_XYZ :: "8 word" where "LOG_DATA_XYZ = 0x01"
definition LOG_DATA_MAG :: "8 word" where "LOG_DATA_MAG = 0x02"
definition LOG_DATA_L1 :: "8 word" where "LOG_DATA_L1 = 0x04"
definition LFS_ERR_BADF :: int where "LFS_ERR_BADF = - 9"

text \<open>Little-endian bytes of a 16-bit and of a 32-bit value, as the target stores them.\<close>

definition le16 :: "16 word \<Rightarrow> 8 word list" where
  "le16 v = [ucast v, ucast (drop_bit 8 v)]"

definition le32 :: "32 word \<Rightarrow> 8 word list" where
  "le32 v = [ucast v, ucast (drop_bit 8 v), ucast (drop_bit 16 v), ucast (drop_bit 24 v)]"

subsection \<open>The interface of the collaborators\<close>

text \<open>
  \<open>lfs_file_open\<close> with \<open>LFS_O_WRONLY | LFS_O_CREAT | LFS_O_APPEND\<close>: a negative
  result is an error and leaves the handle as it was; otherwise the handle is open and
  the file exists.
\<close>

definition lfs_file_open :: "machine \<Rightarrow> int \<times> machine" where
  "lfs_file_open m =
     (let opened = m\<lparr>file_open := True,
                      log_file := Some (case log_file m of None \<Rightarrow> [] | Some c \<Rightarrow> c)\<rparr>
      in case open_results m of
           [] \<Rightarrow> (0, opened)
         | e # es \<Rightarrow>
             if e < 0 then (e, m\<lparr>open_results := es\<rparr>)
             else (e, opened\<lparr>open_results := es\<rparr>))"

text \<open>
  \<open>lfs_file_write\<close> returns the number of bytes written or a negative error.  A write
  through a handle that is not open is the error \<open>LFS_ERR_BADF\<close>.  The bytes the file
  system accepts are appended to the file and leave the free space.
\<close>

definition append_log :: "8 word list \<Rightarrow> machine \<Rightarrow> machine" where
  "append_log bs m =
     m\<lparr>log_file := Some ((case log_file m of None \<Rightarrow> [] | Some c \<Rightarrow> c) @ bs),
       free_space := free_space m - int (length bs)\<rparr>"

definition lfs_file_write :: "8 word list \<Rightarrow> machine \<Rightarrow> int \<times> machine" where
  "lfs_file_write buf m =
     (if \<not> file_open m then (LFS_ERR_BADF, m)
      else case write_results m of
             [] \<Rightarrow> (int (length buf), append_log buf m)
           | r # rs \<Rightarrow> (r, append_log (take (nat r) buf) (m\<lparr>write_results := rs\<rparr>)))"

text \<open>\<open>lfs_file_sync\<close> followed by \<open>lfs_file_close\<close>: the handle is closed.\<close>

definition lfs_file_close :: "machine \<Rightarrow> machine" where
  "lfs_file_close m = m\<lparr>file_open := False\<rparr>"

definition lfs_remove :: "machine \<Rightarrow> int \<times> machine" where
  "lfs_remove m =
     (case log_file m of
        None \<Rightarrow> (- 2, m)
      | Some c \<Rightarrow> (0, m\<lparr>log_file := None, free_space := free_space m + int (length c)\<rparr>))"

definition filesystem_get_free_space :: "machine \<Rightarrow> int" where
  "filesystem_get_free_space m = free_space m"

definition filesystem_file_exists :: "machine \<Rightarrow> bool" where
  "filesystem_file_exists m = (log_file m \<noteq> None)"

definition filesystem_get_file_size :: "machine \<Rightarrow> int" where
  "filesystem_get_file_size m = (case log_file m of None \<Rightarrow> - 1 | Some c \<Rightarrow> int (length c))"

text \<open>
  \<open>malloc\<close> returns null when the allocation fails, and otherwise an address that is
  not live, with a block of the requested size.  \<open>free\<close> releases a live block; a
  \<open>free\<close> of any other address is a memory fault.
\<close>

definition fresh_addr :: "(nat \<times> 8 word list) list \<Rightarrow> nat" where
  "fresh_addr h = Suc (fold max (map fst h) 0)"

definition malloc :: "nat \<Rightarrow> machine \<Rightarrow> nat \<times> machine" where
  "malloc n m =
     (if malloc_fails m then (0, m)
      else (fresh_addr (heap m), m\<lparr>heap := (fresh_addr (heap m), replicate n 0) # heap m\<rparr>))"

definition free :: "nat \<Rightarrow> machine \<Rightarrow> machine" where
  "free p m =
     (if p \<in> fst ` set (heap m) then m\<lparr>heap := filter (\<lambda>b. fst b \<noteq> p) (heap m)\<rparr>
      else m\<lparr>mem_fault := True\<rparr>)"

text \<open>
  \<open>filesystem_read_file\<close> copies the first \<open>len\<close> bytes of the file into the block at
  \<open>p\<close> and reports success; a failed read leaves the block as it was.
\<close>

definition filesystem_read_file :: "nat \<Rightarrow> nat \<Rightarrow> machine \<Rightarrow> bool \<times> machine" where
  "filesystem_read_file p len m =
     (case log_file m of
        None \<Rightarrow> (False, m)
      | Some c \<Rightarrow>
          if read_fails m then (False, m)
          else (True, m\<lparr>heap := map (\<lambda>b. if fst b = p then (p, take len c) else b) (heap m)\<rparr>))"

definition lis2dw_read_fifo :: "machine \<Rightarrow> lis2dw_fifo" where
  "lis2dw_read_fifo m = sensor_fifo m"

definition lis2dw_clear_fifo :: "machine \<Rightarrow> machine" where
  "lis2dw_clear_fifo m = m\<lparr>sensor_fifo := \<lparr>readings = [], count = 0\<rparr>\<rparr>"

definition watch_set_buzzer_off :: "machine \<Rightarrow> machine" where
  "watch_set_buzzer_off m = m\<lparr>buzzer_on := False\<rparr>"

definition watch_set_buzzer_on :: "machine \<Rightarrow> machine" where
  "watch_set_buzzer_on m = m\<lparr>buzzer_on := True\<rparr>"

definition watch_set_buzzer_period_and_duty_cycle :: "buzzer_period \<Rightarrow> machine \<Rightarrow> machine" where
  "watch_set_buzzer_period_and_duty_cycle p m = m\<lparr>buzzer_period := p\<rparr>"

text \<open>\<open>watch_buzzer_play_note\<close> sounds one note for its duration and ends with the buzzer off.\<close>

definition watch_buzzer_play_note :: "buzzer_period \<Rightarrow> machine \<Rightarrow> machine" where
  "watch_buzzer_play_note p m = m\<lparr>buzzer_period := p, buzzer_on := False, beeps := Suc (beeps m)\<rparr>"

definition movement_request_tick_frequency :: "nat \<Rightarrow> machine \<Rightarrow> machine" where
  "movement_request_tick_frequency f m = m\<lparr>tick_frequency := f\<rparr>"

text \<open>
  \<open>movement_default_loop_handler\<close> belongs to the host; it changes none of the fields
  of the model.
\<close>

definition movement_default_loop_handler :: "movement_event \<Rightarrow> machine \<Rightarrow> machine" where
  "movement_default_loop_handler event m = m"

subsection \<open>Log writer\<close>

definition beep :: "machine \<Rightarrow> machine" where
  "beep m = (if \<not> button_sound m then m else watch_buzzer_play_note Period_note_C7 m)"

definition log_open :: "machine \<Rightarrow> machine" where
  "log_open m =
     (case lfs_file_open m of
        (err, m1) \<Rightarrow> if err < 0 then m1\<lparr>error := ERROR_OPEN_FILE\<rparr> else m1)"

definition log_close :: "machine \<Rightarrow> machine" where
  "log_close m = lfs_file_close m"

text \<open>
  \<open>_start_recording\<close>: \<open>ret\<close> and \<open>expected_size\<close> are \<open>uint32_t\<close>; each result of
  \<open>lfs_file_write\<close> is added to \<open>ret\<close>, a negative one modulo \<open>2^32\<close>.  The size of the
  sensor snapshot is the length of \<open>device_state\<close>.
\<close>

definition start_recording :: "machine \<Rightarrow> machine" where
  "start_recording m =
     (let m0 = log_open (lis2dw_clear_fifo (beep m));
          m1 = m0\<lparr>start_ts := now_ts m0\<rparr>;
          (r1, m2) = lfs_file_write (le16 LOG_MAGIC_BYTES) m1;
          (r2, m3) = lfs_file_write [LOG_VERSION] m2;
          (r3, m4) = lfs_file_write (device_state m3) m3;
          (r4, m5) = lfs_file_write [data_type m4] m4;
          (r5, m6) = lfs_file_write [index m5] m5;
          (r6, m7) = lfs_file_write (le32 (start_ts m6)) m6;
          ret = (of_int r1 + of_int r2 + of_int r3 + of_int r4 + of_int r5 + of_int r6 :: 32 word);
          expected_size = (2 + 1 + of_nat (length (device_state m)) + 1 + 1 + 4 :: 32 word)
      in if ret \<noteq> expected_size then m7\<lparr>error := ERROR_WRITE_HEADER\<rparr> else m7)"

definition stop_recording :: "machine \<Rightarrow> machine" where
  "stop_recording m =
     (let m1 = log_close (beep m)
      in m1\<lparr>start_ts := 0, index := index m1 + 1\<rparr>)"

text \<open>
  The body of the loop of \<open>_log_data\<close> for one sample in two parts, each ending either
  at \<open>goto error\<close> (\<open>Inl\<close>) or normally (\<open>Inr\<close>).
\<close>

definition log_xyz :: "lis2dw_reading \<Rightarrow> machine \<Rightarrow> machine + machine" where
  "log_xyz r m =
     (if data_type m AND LOG_DATA_XYZ \<noteq> 0 then
        (let (r1, m1) = lfs_file_write (le16 (x r)) m;
             (r2, m2) = lfs_file_write (le16 (y r)) m1;
             (r3, m3) = lfs_file_write (le16 (z r)) m2;
             ret = (of_int r1 + of_int r2 + of_int r3 :: 32 word)
         in if ret \<noteq> 3 * 2 then Inl m3 else Inr m3)
      else Inr m)"

definition log_mag :: "lis2dw_reading \<Rightarrow> machine \<Rightarrow> machine + machine" where
  "log_mag r m =
     (if data_type m AND LOG_DATA_MAG \<noteq> 0 then
        (let mag = (if data_type m AND LOG_DATA_L1 \<noteq> 0 then fast_l1_norm r else fast_l2_norm r);
             mag_buffer = [ucast (drop_bit 0 mag AND 0xFF), ucast (drop_bit 8 mag AND 0xFF),
                           ucast (drop_bit 16 mag AND 0xFF)];
             (r1, m1) = lfs_file_write mag_buffer m;
             ret = (of_int r1 :: 32 word)
         in if ret \<noteq> 3 then Inl m1 else Inr m1)
      else Inr m)"

fun log_readings :: "lis2dw_reading list \<Rightarrow> machine \<Rightarrow> machine + machine" where
  "log_readings [] m = Inr m"
| "log_readings (r # rs) m =
     (case log_xyz r m of
        Inl e \<Rightarrow> Inl e
      | Inr m1 \<Rightarrow>
          (case log_mag r m1 of
             Inl e \<Rightarrow> Inl e
           | Inr m2 \<Rightarrow> log_readings rs m2))"

text \<open>
  \<open>_log_data\<close>: the loop runs over the first \<open>count\<close> entries of the sample array.
\<close>

definition log_data :: "lis2dw_fifo \<Rightarrow> machine \<Rightarrow> machine" where
  "log_data fifo m =
     (if count fifo = 0 then m
      else
        (let (r0, m1) = lfs_file_write [count fifo] m;
             ret = (of_int r0 :: 32 word)
         in if ret \<noteq> 1 then m1\<lparr>error := ERROR_WRITE_DATA\<rparr>
            else
              (case log_readings (take (unat (count fifo)) (readings fifo)) m1 of
                 Inl e \<Rightarrow> e\<lparr>error := ERROR_WRITE_DATA\<rparr>
               | Inr m2 \<Rightarrow> m2)))"

definition log_steps :: "machine \<Rightarrow> machine" where
  "log_steps m =
     (let m0 = log_open m;
          (r1, m1) = lfs_file_write [LOG_FILE_MARKER] m0;
          ret = (0 + of_int r1 :: 32 word)
      in if ret \<noteq> 1 then m1\<lparr>error := ERROR_WRITE_DATA\<rparr>
         else
           (let (r2, m2) = lfs_file_write (le16 (steps m1)) m1;
                ret = (of_int r2 :: 32 word)
            in if ret \<noteq> 2 then m2\<lparr>error := ERROR_WRITE_DATA\<rparr>
               else (log_close m2)\<lparr>steps := 0\<rparr>))"

definition delete_log_file :: "machine \<Rightarrow> machine" where
  "delete_log_file m = snd (lfs_remove m)"

subsection \<open>Transmission scheduler\<close>

definition chirp_quit :: "machine \<Rightarrow> machine" where
  "chirp_quit m =
     (let m1 = movement_request_tick_frequency 1 (watch_set_buzzer_off (m\<lparr>bell_indicator := False\<rparr>));
          m2 = m1\<lparr>chirping := False\<rparr>;
          m3 = (if chirp_data_ptr m2 \<noteq> 0 then free (chirp_data_ptr m2) m2 else m2)
      in m3\<lparr>chirp_data_ptr := 0, chirp_data_ix := 0, chirp_data_len := 0\<rparr>)"

text \<open>
  \<open>_chirp_next_byte\<close> returns the flag and the byte it stores through \<open>next_byte\<close>
  (\<open>None\<close> when it stores nothing).  Reading \<open>chirp_data_ptr[chirp_data_ix]\<close> outside a
  live block is a memory fault.
\<close>

definition chirp_next_byte :: "machine \<Rightarrow> (8 word \<times> 8 word option) \<times> machine" where
  "chirp_next_byte m =
     (if chirp_data_ix m = chirp_data_len m then ((0, None), m)
      else
        (case map_of (heap m) (chirp_data_ptr m) of
           Some block \<Rightarrow>
             if unat (chirp_data_ix m) < length block
             then ((1, Some (block ! unat (chirp_data_ix m))),
                   m\<lparr>chirp_data_ix := chirp_data_ix m + 1\<rparr>)
             else ((1, Some 0), m\<lparr>chirp_data_ix := chirp_data_ix m + 1, mem_fault := True\<rparr>)
         | None \<Rightarrow> ((1, Some 0), m\<lparr>chirp_data_ix := chirp_data_ix m + 1, mem_fault := True\<rparr>)))"

text \<open>
  The tone encoder: \<open>chirpy_init_encoder\<close> binds the callback \<open>_chirp_next_byte\<close>;
  \<open>chirpy_get_next_tone\<close> calls it as often as the script says and returns the
  scripted tone.
\<close>

definition chirpy_init_encoder :: "machine \<Rightarrow> machine" where
  "chirpy_init_encoder m = m"

primrec pull_bytes :: "nat \<Rightarrow> machine \<Rightarrow> machine" where
  "pull_bytes 0 m = m"
| "pull_bytes (Suc k) m = pull_bytes k (snd (chirp_next_byte m))"

definition chirpy_get_next_tone :: "machine \<Rightarrow> 8 word \<times> machine" where
  "chirpy_get_next_tone m =
     (case encoder_script m of
        [] \<Rightarrow> (255, m)
      | (k, tone) # es \<Rightarrow> (tone, pull_bytes k (m\<lparr>encoder_script := es\<rparr>)))"

definition chirp_tick_transmit :: "machine \<Rightarrow> machine" where
  "chirp_tick_transmit m =
     (case chirpy_get_next_tone m of
        (tone, m1) \<Rightarrow>
          if tone = 255 then chirp_quit m1
          else watch_set_buzzer_on (watch_set_buzzer_period_and_duty_cycle (Period_tone tone) m1))"

text \<open>
  \<open>_load_log_file\<close>: the file size (an \<open>int32_t\<close>) is stored in the \<open>uint16_t\<close>
  \<open>chirp_data_len\<close>.
\<close>

definition load_log_file :: "machine \<Rightarrow> machine" where
  "load_log_file m =
     (if \<not> filesystem_file_exists m then m\<lparr>error := ERROR_OPEN_FILE\<rparr>
      else
        (let m1 = m\<lparr>chirp_data_len := of_int (filesystem_get_file_size m)\<rparr>;
             (p, m2) = malloc (unat (chirp_data_len m1)) m1;
             m3 = m2\<lparr>chirp_data_ptr := p\<rparr>
         in if p = 0 then m3\<lparr>error := ERROR_ALLOC_MEM\<rparr>
            else
              (case filesystem_read_file p (unat (chirp_data_len m3)) m3 of
                 (ret, m4) \<Rightarrow> if \<not> ret then m4\<lparr>error := ERROR_READ_FILE\<rparr> else m4)))"

definition chirp_countdown_tick :: "machine \<Rightarrow> machine" where
  "chirp_countdown_tick m =
     (if seq_pos m = 8 * 3 then
        (let m1 = m\<lparr>tick_compare := 3, tick_count := - 1, seq_pos := 0\<rparr>;
             m2 = chirpy_init_encoder m1;
             m3 = m2\<lparr>tick_fun := Chirp_tick_transmit\<rparr>
         in load_log_file m3)
      else
        (let m1 = (if seq_pos m mod 8 = 0
                   then watch_set_buzzer_on (watch_set_buzzer_period_and_duty_cycle Period_note_A5 m)
                   else if seq_pos m mod 8 = 1 then watch_set_buzzer_off m
                   else m)
         in m1\<lparr>seq_pos := seq_pos m1 + 1\<rparr>))"

definition chrip_setup :: "machine \<Rightarrow> machine" where
  "chrip_setup m =
     (let m1 = (movement_request_tick_frequency 64 m)\<lparr>bell_indicator := True\<rparr>
      in m1\<lparr>chirping := True, tick_count := - 1, tick_compare := 8, seq_pos := 0,
            tick_fun := Chirp_countdown_tick\<rparr>)"

text \<open>The call through the function pointer \<open>tick_fun\<close>.\<close>

definition call_tick_fun :: "machine \<Rightarrow> machine" where
  "call_tick_fun m =
     (case tick_fun m of
        Tick_null \<Rightarrow> m\<lparr>mem_fault := True\<rparr>
      | Chirp_countdown_tick \<Rightarrow> chirp_countdown_tick m
      | Chirp_tick_transmit \<Rightarrow> chirp_tick_transmit m)"

subsection \<open>Session state machine\<close>

definition switch_to_labeling :: "machine \<Rightarrow> machine" where
  "switch_to_labeling m = beep ((movement_request_tick_frequency 4 m)\<lparr>page := PAGE_LABELING\<rparr>)"

definition switch_to_recording :: "machine \<Rightarrow> machine" where
  "switch_to_recording m = beep ((movement_request_tick_frequency 1 m)\<lparr>page := PAGE_RECORDING\<rparr>)"

definition switch_to_chirping :: "machine \<Rightarrow> machine" where
  "switch_to_chirping m = beep ((movement_request_tick_frequency 1 m)\<lparr>page := PAGE_CHIRPING\<rparr>)"

definition enforce_quota :: "machine \<Rightarrow> machine" where
  "enforce_quota m =
     (if filesystem_get_free_space m < MIN_FS_SPACE
      then switch_to_labeling (stop_recording m)
      else m)"

fun recording_loop :: "movement_event \<Rightarrow> machine \<Rightarrow> machine" where
  "recording_loop EVENT_ACTIVATE m = m"
| "recording_loop EVENT_TICK m =
     (if start_ts m \<noteq> 0
      then enforce_quota (lis2dw_clear_fifo (log_data (lis2dw_read_fifo m) m))
      else m)"
| "recording_loop EVENT_ALARM_BUTTON_UP m =
     (if \<not> (start_ts m \<noteq> 0) then start_recording m
      else switch_to_labeling (stop_recording m))"
| "recording_loop EVENT_ALARM_LONG_PRESS m = switch_to_chirping m"
| "recording_loop event m = movement_default_loop_handler event m"

fun labeling_loop :: "movement_event \<Rightarrow> machine \<Rightarrow> machine" where
  "labeling_loop EVENT_ACTIVATE m = m"
| "labeling_loop EVENT_TICK m = m"
| "labeling_loop EVENT_LIGHT_BUTTON_DOWN m =
     m\<lparr>steps := (if steps m > 0 then steps m - 1 else 0)\<rparr>"
| "labeling_loop EVENT_ALARM_BUTTON_DOWN m = m\<lparr>steps := steps m + 10\<rparr>"
| "labeling_loop EVENT_MODE_BUTTON_UP m = switch_to_recording (log_steps m)"
| "labeling_loop event m = movement_default_loop_handler event m"

definition chirping_tick :: "machine \<Rightarrow> machine" where
  "chirping_tick m =
     (if chirping m then
        (let m1 = m\<lparr>tick_count := tick_count m + 1\<rparr>
         in if tick_count m1 = tick_compare m1
            then call_tick_fun (m1\<lparr>tick_count := 0\<rparr>)
            else m1)
      else m)"

fun chirping_loop :: "movement_event \<Rightarrow> machine \<Rightarrow> machine" where
  "chirping_loop EVENT_ACTIVATE m = chirping_tick m"
| "chirping_loop EVENT_TICK m = chirping_tick m"
| "chirping_loop EVENT_LIGHT_LONG_PRESS m =
     switch_to_recording (delete_log_file (if chirping m then chirp_quit m else m))"
| "chirping_loop EVENT_LIGHT_BUTTON_DOWN m = m"
| "chirping_loop EVENT_MODE_BUTTON_UP m =
     switch_to_recording (if chirping m then chirp_quit m else m)"
| "chirping_loop EVENT_ALARM_BUTTON_UP m = chrip_setup m"
| "chirping_loop event m = movement_default_loop_handler event m"

definition stepcounter_logging_face_activate :: "machine \<Rightarrow> machine" where
  "stepcounter_logging_face_activate m = m\<lparr>error := 0, fifo_enabled := True\<rparr>"

definition stepcounter_logging_face_loop :: "movement_event \<Rightarrow> machine \<Rightarrow> machine" where
  "stepcounter_logging_face_loop event m =
     (case page m of
        PAGE_RECORDING \<Rightarrow> recording_loop event m
      | PAGE_LABELING \<Rightarrow> labeling_loop event m
      | PAGE_CHIRPING \<Rightarrow> chirping_loop event m)"

definition stepcounter_logging_face_resign :: "machine \<Rightarrow> machine" where
  "stepcounter_logging_face_resign m =
     (let m1 = (if start_ts m \<noteq> 0 then stop_recording m else m);
          m2 = (if chirping m1 then chirp_quit m1 else m1)
      in m2\<lparr>fifo_enabled := False\<rparr>)"

text \<open>
  \<open>stepcounter_logging_face_setup\<close>: when \<open>*context_ptr\<close> is null (the first
  argument), the state is allocated and zeroed by \<open>memset\<close>; a zeroed page is
  \<open>PAGE_RECORDING\<close>, a zeroed function pointer is null and a zeroed handle is not
  open.  In both cases \<open>index\<close>, \<open>data_type\<close> and \<open>page\<close> are then set.  The three
  chirp variables are statics and are not touched.
\<close>

definition stepcounter_logging_face_setup :: "bool \<Rightarrow> machine \<Rightarrow> machine" where
  "stepcounter_logging_face_setup context_is_null m =
     (let m1 = (if context_is_null
                then m\<lparr>start_ts := 0, data_type := 0, index := 0, error := 0, steps := 0,
                       page := PAGE_RECORDING, file_open := False, tick_count := 0,
                       tick_compare := 0, seq_pos := 0, tick_fun := Tick_null,
                       chirping := False\<rparr>
                else m)
      in m1\<lparr>index := 1, data_type := LOG_DATA_MAG, page := PAGE_RECORDING\<rparr>)"

text \<open>
  What the transmission scheduler owns or drives: the buffer variables, the \<open>chirping\<close>
  flag, the requested tick rate, the buzzer, the bell indicator and the allocator.
\<close>

definition scheduler_state ::
  "machine \<Rightarrow> nat \<times> 16 word \<times> 16 word \<times> bool \<times> nat \<times> bool \<times> bool \<times> (nat \<times> 8 word list) list \<times> bool" where
  "scheduler_state m =
     (chirp_data_ptr m, chirp_data_ix m, chirp_data_len m, chirping m, tick_frequency m,
      buzzer_on m, bell_indicator m, heap m, mem_fault m)"

subsection \<open>The layout of a data block\<close>

text \<open>
  The data block of the log format as the specification lays it out: a count byte,
  then per sample the raw axes as three 2-byte integers (present iff the raw-XYZ flag
  is set) and a little-endian 3-byte magnitude (present iff the magnitude flag is set,
  the L1 norm if the L1 flag is set and the approximate L2 norm otherwise).
\<close>

definition mag_bytes :: "8 word \<Rightarrow> lis2dw_reading \<Rightarrow> 8 word list" where
  "mag_bytes dt r =
     (let mag = (if dt AND LOG_DATA_L1 \<noteq> 0 then fast_l1_norm r else fast_l2_norm r)
      in [ucast mag, ucast (drop_bit 8 mag), ucast (drop_bit 16 mag)])"

definition sample_bytes :: "8 word \<Rightarrow> lis2dw_reading \<Rightarrow> 8 word list" where
  "sample_bytes dt r =
     (if dt AND LOG_DATA_XYZ \<noteq> 0 then le16 (x r) @ le16 (y r) @ le16 (z r) else [])
     @ (if dt AND LOG_DATA_MAG \<noteq> 0 then mag_bytes dt r else [])"

definition data_block :: "8 word \<Rightarrow> lis2dw_fifo \<Rightarrow> 8 word list" where
  "data_block dt fifo =
     count fifo # concat (map (sample_bytes dt) (take (unat (count fifo)) (readings fifo)))"

text \<open>The bytes of the log file, none while the file does not exist.\<close>

definition log_contents :: "machine \<Rightarrow> 8 word list" where
  "log_contents m = (case log_file m of None \<Rightarrow> [] | Some c \<Rightarrow> c)"

subsection \<open>Concrete machines\<close>

text \<open>
  The watch after \<open>setup\<close>: no log file, 4096 bytes free, a clock reading of 1000, a
  sensor snapshot of four bytes, an empty sample buffer, button sounds off.
\<close>

definition power_on :: machine where
  "power_on =
     \<lparr>start_ts = 0, data_type = LOG_DATA_MAG, index = 1, error = 0, steps = 0,
      page = PAGE_RECORDING, file_open = False, tick_count = 0, tick_compare = 0, seq_pos = 0,
      tick_fun = Tick_null, chirping = False, chirp_data_ptr = 0, chirp_data_ix = 0,
      chirp_data_len = 0, log_file = None, free_space = 4096, open_results = [],
      write_results = [], read_fails = False, heap = [], malloc_fails = False,
      mem_fault = False, sensor_fifo = \<lparr>readings = [], count = 0\<rparr>, fifo_enabled = True,
      now_ts = 1000, device_state = [0, 0, 0, 0], button_sound = False, buzzer_on = False,
      buzzer_period = Period_unset, beeps = 0, tick_frequency = 1, bell_indicator = False,
      encoder_script = []\<rparr>"

text \<open>
  A running session with 100 bytes of free space and one sample \<open>(3, -4, 0)\<close> waiting in
  the sensor buffer.
\<close>

definition low_space_session :: machine where
  "low_space_session =
     power_on\<lparr>start_ts := 1000, file_open := True, log_file := Some [], free_space := 100,
              sensor_fifo := \<lparr>readings = [\<lparr>x = 3, y = - 4, z = 0\<rparr>], count = 1\<rparr>\<rparr>"

text \<open>
  A session begun by the ALARM button with 15 bytes free: the header of 13 bytes leaves
  2.  Then one sample \<open>(3, -4, 0)\<close> arrives, and the file system will accept the count
  byte of its block and nothing of the magnitude.
\<close>

definition started_with_15_bytes :: machine where
  "started_with_15_bytes =
     (stepcounter_logging_face_loop EVENT_ALARM_BUTTON_UP (power_on\<lparr>free_space := 15\<rparr>))
       \<lparr>sensor_fifo := \<lparr>readings = [\<lparr>x = 3, y = - 4, z = 0\<rparr>], count = 1\<rparr>,
        write_results := [1, 0]\<rparr>"

text \<open>
  The chirping page at the last tick of the countdown: the divider is about to fire
  with \<open>seq_pos = 24\<close>, the log file holds four bytes, and the allocator is out of
  memory.  The encoder will pull one byte for its first tone.
\<close>

definition countdown_done :: machine where
  "countdown_done =
     power_on\<lparr>page := PAGE_CHIRPING, chirping := True, tick_count := 7, tick_compare := 8,
              seq_pos := 24, tick_fun := Chirp_countdown_tick, tick_frequency := 64,
              bell_indicator := True, log_file := Some [1, 2, 3, 4], malloc_fails := True,
              encoder_script := [(1, 5)]\<rparr>"

text \<open>The watch after \<open>setup\<close> on a file system whose next open fails with \<open>LFS_ERR_NOSPC\<close>.\<close>

definition open_fails :: machine where
  "open_fails = power_on\<lparr>open_results := [- 28]\<rparr>"

text \<open>The labeling page with twenty steps entered.\<close>

definition labeling_20 :: machine where
  "labeling_20 = power_on\<lparr>page := PAGE_LABELING, steps := 20\<rparr>"

text \<open>
  The labeling page with 23 steps entered, on a file system that accepts the marker
  byte and then nothing of the step count.
\<close>

definition labeling_short_write :: machine where
  "labeling_short_write =
     power_on\<lparr>page := PAGE_LABELING, steps := 23, log_file := Some [], write_results := [1, 0]\<rparr>"

text \<open>
  A transmission whose encoder is exhausted: the buffer of two bytes is live at
  address 1 and both bytes have been pulled.
\<close>

definition transmit_done :: machine where
  "transmit_done =
     power_on\<lparr>page := PAGE_CHIRPING, chirping := True, tick_count := 2, tick_compare := 3,
              tick_fun := Chirp_tick_transmit, tick_frequency := 64, bell_indicator := True,
              buzzer_on := True, buzzer_period := Period_tone 5, log_file := Some [7, 8],
              heap := [(1, [7, 8])], chirp_data_ptr := 1, chirp_data_ix := 2,
              chirp_data_len := 2\<rparr>"

section \<open>Properties of the arithmetic helpers\<close>

lemma sint16_range: "- 32768 \<le> sint (v::16 word) \<and> sint v < 32768"
  using sint_ge[of v] sint_lt[of v] by simp

lemma sint_scast_16_32: "sint (scast (v::16 word) :: 32 word) = sint v"
  by (simp add: sint_up_scast is_up)

lemma sign_mask_15:
  "signed_drop_bit 15 (scast (v::16 word) :: 32 word) = (if sint v < 0 then - 1 else 0)"
proof -
  have "sint (signed_drop_bit 15 (scast v :: 32 word)) = sint v div 2 ^ 15"
    by (simp add: sint_signed_drop_bit_eq sint_scast_16_32 drop_bit_eq_div)
  also have "\<dots> = (if sint v < 0 then - 1 else 0)"
    using sint16_range[of v] by auto
  finally have "sint (signed_drop_bit 15 (scast v :: 32 word))
                  = sint (if sint v < 0 then - 1 else 0 :: 32 word)"
    by simp
  then show ?thesis
    by (rule signed_word_eqI)
qed

lemma sign_mask_31:
  "signed_drop_bit 31 (scast (v::16 word) :: 32 word) = (if sint v < 0 then - 1 else 0)"
proof -
  have "sint (signed_drop_bit 31 (scast v :: 32 word)) = sint v div 2 ^ 31"
    by (simp add: sint_signed_drop_bit_eq sint_scast_16_32 drop_bit_eq_div)
  also have "\<dots> = (if sint v < 0 then - 1 else 0)"
    using sint16_range[of v] by auto
  finally have "sint (signed_drop_bit 31 (scast v :: 32 word))
                  = sint (if sint v < 0 then - 1 else 0 :: 32 word)"
    by simp
  then show ?thesis
    by (rule signed_word_eqI)
qed

lemma ucast_scast_id: "(ucast (scast (v::16 word) :: 32 word) :: 16 word) = v"
  by (rule bit_word_eqI) (auto simp add: bit_simps)

lemma ucast_minus_1_16: "(ucast (- 1 :: 32 word) :: 16 word) = - 1"
  by (rule bit_word_eqI) (auto simp add: bit_simps)

lemma scast_minus_1_32: "(scast (- 1 :: 16 word) :: 32 word) = - 1"
  by (rule bit_word_eqI) (auto simp add: bit_simps)

lemma ucast_neg_scast: "(ucast (- (scast (v::16 word) :: 32 word)) :: 16 word) = - v"
proof -
  have "- (scast v :: 32 word) = word_of_int (- sint v)"
    by simp
  then have "(ucast (- (scast v :: 32 word)) :: 16 word)
               = ucast (word_of_int (- sint v) :: 32 word)"
    by (simp only:)
  also have "\<dots> = word_of_int (- sint v)"
    by (rule ucast_down_wi) (simp add: is_down)
  finally show ?thesis by simp
qed

lemma fast_abs16_eq: "fast_abs16 v = (if sint v < 0 then - v else v)"
  by (simp add: fast_abs16_def sign_mask_15 Let_def ucast_scast_id ucast_neg_scast
      ucast_minus_1_16 scast_minus_1_32 flip: minus_eq_not_minus_1)

lemma mask_abs16_eq: "mask_abs16 v = (if sint v < 0 then - v else v)"
  by (simp add: mask_abs16_def sign_mask_15 Let_def ucast_scast_id ucast_neg_scast
      flip: minus_eq_not_plus_1)

lemma uint_sint16: "uint (v::16 word) = sint v mod 65536"
  by (simp add: uint_sint take_bit_eq_mod)

lemma uint_neg16: "sint (v::16 word) < 0 \<Longrightarrow> uint (- v) = - sint v"
proof -
  assume neg: "sint v < 0"
  have "uint (- v) = (- uint v) mod 65536"
    by (simp add: uint_word_ariths)
  also have "\<dots> = (- (sint v mod 65536)) mod 65536"
    by (simp only: uint_sint16)
  also have "\<dots> = (- sint v) mod 65536"
    by (simp add: mod_minus_eq)
  also have "\<dots> = - sint v"
    using neg sint16_range[of v] by simp
  finally show ?thesis .
qed

lemma uint_nonneg16: "\<not> sint (v::16 word) < 0 \<Longrightarrow> uint v = sint v"
  using sint16_range[of v] by (simp add: uint_sint16)

lemma uint_fast_abs16: "uint (fast_abs16 v) = \<bar>sint v\<bar>"
  by (simp add: fast_abs16_eq uint_neg16 uint_nonneg16)

lemma sint_fast_abs16:
  assumes "sint v \<noteq> - 32768"
  shows "sint (fast_abs16 v) = \<bar>sint v\<bar>"
proof (cases "sint v < 0")
  case True
  have "sint (- v) = signed_take_bit 15 (- sint v)"
    by (simp add: sint_word_minus)
  also have "\<dots> = - sint v"
    using assms True sint16_range[of v] by (intro signed_take_bit_int_eq_self) auto
  finally show ?thesis using True by (simp add: fast_abs16_eq)
next
  case False
  then show ?thesis by (simp add: fast_abs16_eq)
qed

lemma uint_scast_nonneg: "\<not> sint (v::16 word) < 0 \<Longrightarrow> uint (scast v :: 32 word) = sint v"
proof -
  assume nn: "\<not> sint v < 0"
  have "uint (scast v :: 32 word) = sint (scast v :: 32 word) mod 4294967296"
    by (simp add: uint_sint take_bit_eq_mod)
  also have "\<dots> = sint v"
    using nn sint16_range[of v] by (simp add: sint_scast_16_32)
  finally show ?thesis .
qed

lemma uint_neg_scast: "sint (v::16 word) < 0 \<Longrightarrow> uint (- (scast v :: 32 word)) = - sint v"
proof -
  assume neg: "sint v < 0"
  have "uint (- (scast v :: 32 word)) = (- uint (scast v :: 32 word)) mod 4294967296"
    by (simp add: uint_word_ariths)
  also have "\<dots> = (- (sint (scast v :: 32 word) mod 4294967296)) mod 4294967296"
    by (simp add: uint_sint take_bit_eq_mod)
  also have "\<dots> = (- sint v) mod 4294967296"
    by (simp add: mod_minus_eq sint_scast_16_32)
  also have "\<dots> = - sint v"
    using neg sint16_range[of v] by simp
  finally show ?thesis .
qed

lemma uint_ucast_16_32: "uint (ucast (a::16 word) :: 32 word) = uint a"
  by (simp add: uint_up_ucast is_up)

lemma bitwise_abs_eq: "bitwise_abs (scast v) = ucast (fast_abs16 v)"
proof -
  have b: "bitwise_abs (scast v) = (if sint v < 0 then - scast v else scast v)"
    by (simp add: bitwise_abs_def sign_mask_31 Let_def flip: minus_eq_not_plus_1)
  have "uint (bitwise_abs (scast v)) = \<bar>sint v\<bar>"
    by (simp add: b uint_neg_scast uint_scast_nonneg)
  then have "uint (bitwise_abs (scast v)) = uint (ucast (fast_abs16 v) :: 32 word)"
    by (simp only: uint_ucast_16_32 uint_fast_abs16)
  then show ?thesis by (simp only: word_uint_eq_iff)
qed

text \<open>
  C9.  For every signed 16-bit input other than \<open>-32768\<close>, \<open>fast_abs16\<close> returns the
  absolute value, whether the result is read as unsigned or as signed.  For every
  input, \<open>-32768\<close> included, it agrees with the mask identity
  \<open>(x ^ (x>>15)) - (x>>15)\<close> and with the 32-bit \<open>bitwise_abs\<close> of the benchmark on the
  sign-extended input; the input \<open>-32768\<close> is not special-cased and comes back as the
  bit pattern \<open>0x8000\<close>.
\<close>

theorem fast_abs16_is_abs:
  "(sint v \<noteq> - 32768 \<longrightarrow> uint (fast_abs16 v) = \<bar>sint v\<bar> \<and> sint (fast_abs16 v) = \<bar>sint v\<bar>)
   \<and> fast_abs16 v = mask_abs16 v
   \<and> (ucast (fast_abs16 v) :: 32 word) = bitwise_abs (scast v)
   \<and> fast_abs16 0x8000 = 0x8000"
proof -
  have a: "sint v \<noteq> - 32768 \<longrightarrow> uint (fast_abs16 v) = \<bar>sint v\<bar> \<and> sint (fast_abs16 v) = \<bar>sint v\<bar>"
    by (simp add: uint_fast_abs16 sint_fast_abs16)
  have b: "fast_abs16 v = mask_abs16 v"
    by (simp add: fast_abs16_eq mask_abs16_eq)
  have c: "(ucast (fast_abs16 v) :: 32 word) = bitwise_abs (scast v)"
    by (simp add: bitwise_abs_eq)
  have d: "fast_abs16 0x8000 = 0x8000"
    by code_simp
  from a b c d show ?thesis by blast
qed

theorem fast_abs16_is_abs_witness:
  "sint (- 5 :: 16 word) \<noteq> - 32768 \<and> uint (fast_abs16 (- 5)) = 5 \<and> sint (fast_abs16 (- 5)) = 5"
proof -
  have h: "sint (- 5 :: 16 word) \<noteq> - 32768"
    by simp
  from fast_abs16_is_abs [of "- 5"]
  have "sint (- 5 :: 16 word) \<noteq> - 32768 \<longrightarrow>
          uint (fast_abs16 (- 5)) = \<bar>sint (- 5 :: 16 word)\<bar>
          \<and> sint (fast_abs16 (- 5)) = \<bar>sint (- 5 :: 16 word)\<bar>"
    by (rule conjunct1)
  with h show ?thesis by simp
qed

subsection \<open>The approximate norm\<close>

lemma uint16_bound: "0 \<le> uint (a::16 word) \<and> uint a < 65536"
  using uint_lt2p[of a] by simp

lemma uint_l2_expr:
  "uint ((ucast (a::16 word) :: 32 word) + drop_bit 4 (15 * ucast (b::16 word))
          + drop_bit 3 (3 * ucast (c::16 word)))
   = uint a + (15 * uint b) div 16 + (3 * uint c) div 8"
proof -
  have b15: "uint (15 * (ucast b :: 32 word)) = 15 * uint b"
    using uint16_bound[of b] by (simp add: uint_word_ariths uint_ucast_16_32)
  have c3: "uint (3 * (ucast c :: 32 word)) = 3 * uint c"
    using uint16_bound[of c] by (simp add: uint_word_ariths uint_ucast_16_32)
  have d4: "uint (drop_bit 4 (15 * (ucast b :: 32 word))) = (15 * uint b) div 16"
    by (simp add: drop_bit_eq_div uint_div_distrib b15)
  have d3: "uint (drop_bit 3 (3 * (ucast c :: 32 word))) = (3 * uint c) div 8"
    by (simp add: drop_bit_eq_div uint_div_distrib c3)
  have "uint ((ucast a :: 32 word) + drop_bit 4 (15 * ucast b) + drop_bit 3 (3 * ucast c))
        = (uint a + (15 * uint b) div 16 + (3 * uint c) div 8) mod 4294967296"
    by (simp add: uint_word_ariths uint_ucast_16_32 d4 d3 mod_simps)
  also have "\<dots> = uint a + (15 * uint b) div 16 + (3 * uint c) div 8"
  proof (rule mod_pos_pos_trivial)
    have "0 \<le> (15 * uint b) div 16" "0 \<le> (3 * uint c) div 8"
      by (simp_all add: pos_imp_zdiv_nonneg_iff)
    then show "0 \<le> uint a + (15 * uint b) div 16 + (3 * uint c) div 8"
      using uint_ge_0[of a] by linarith
    show "uint a + (15 * uint b) div 16 + (3 * uint c) div 8 < 4294967296"
      using uint16_bound[of a] uint16_bound[of b] uint16_bound[of c] by simp
  qed
  finally show ?thesis .
qed

lemma sort3_uint:
  "sort3 (a, b, c) = (p, q, r) \<Longrightarrow>
     rev (sort [uint a, uint b, uint c]) = [uint p, uint q, uint r]"
  by (auto simp: sort3_def Let_def word_less_def split: if_splits)

lemma sort3_squares:
  "sort3 (a, b, c) = (p, q, r) \<Longrightarrow>
     (uint p)\<^sup>2 + (uint q)\<^sup>2 + (uint r)\<^sup>2 = (uint a)\<^sup>2 + (uint b)\<^sup>2 + (uint c)\<^sup>2"
  by (auto simp: sort3_def Let_def split: if_splits)

lemma uint_fast_l2_norm:
  "sort3 (fast_abs16 (x reading), fast_abs16 (y reading), fast_abs16 (z reading)) = (p, q, r) \<Longrightarrow>
   uint (fast_l2_norm reading) = uint p + (15 * uint q) div 16 + (3 * uint r) div 8"
  by (simp add: fast_l2_norm_def uint_l2_expr)

lemma fast_l2_norm_eq_spec:
  "uint (fast_l2_norm reading)
     = approx_l2_spec (sint (x reading)) (sint (y reading)) (sint (z reading))"
proof -
  obtain p q r
    where s: "sort3 (fast_abs16 (x reading), fast_abs16 (y reading), fast_abs16 (z reading))
                = (p, q, r)"
    by (metis prod_cases3)
  from sort3_uint[OF s] show ?thesis
    by (simp add: uint_fast_l2_norm[OF s] approx_l2_spec_def uint_fast_abs16)
qed

lemma int_abs32_scast: "int_abs32 (scast v) = ucast (fast_abs16 v)"
proof -
  have "uint (int_abs32 (scast v)) = \<bar>sint v\<bar>"
    by (simp add: int_abs32_def sint_scast_16_32 uint_neg_scast uint_scast_nonneg)
  then have "uint (int_abs32 (scast v)) = uint (ucast (fast_abs16 v) :: 32 word)"
    by (simp only: uint_ucast_16_32 uint_fast_abs16)
  then show ?thesis by (simp only: word_uint_eq_iff)
qed

lemma ucast_less_16_32: "((ucast (a::16 word) :: 32 word) < ucast (b::16 word)) = (a < b)"
  by (simp add: word_less_def uint_ucast_16_32)

lemma sort3_ucast:
  "sort3 (a, b, c) = (p, q, r) \<Longrightarrow>
   sort3 (ucast a :: 32 word, ucast b, ucast c) = (ucast p, ucast q, ucast (r::16 word))"
  by (auto simp: sort3_def Let_def ucast_less_16_32 split: if_splits)

lemma approx_l2_norm_eq_fast:
  "approx_l2_norm (scast (x reading)) (scast (y reading)) (scast (z reading))
     = fast_l2_norm reading"
proof -
  obtain p q r
    where s: "sort3 (fast_abs16 (x reading), fast_abs16 (y reading), fast_abs16 (z reading))
                = (p, q, r)"
    by (metis prod_cases3)
  show ?thesis
    by (simp add: approx_l2_norm_def fast_l2_norm_def int_abs32_scast sort3_ucast [OF s] s)
qed

text \<open>
  C5.  For every sample of three signed 16-bit axes, the magnitude \<open>fast_l2_norm\<close>
  computes is the value of the specification's recipe: absolute values, sorted
  descending as \<open>a \<ge> b \<ge> c\<close>, then \<open>a + floor (15 * b / 16) + floor (3 * c / 8)\<close>.
  It is also the value the reference \<open>approx_l2_norm\<close> computes, with the same
  multiplications and right shifts, on the sign-extended axes.
\<close>

theorem fast_l2_norm_matches_spec:
  "uint (fast_l2_norm reading)
     = approx_l2_spec (sint (x reading)) (sint (y reading)) (sint (z reading))
   \<and> fast_l2_norm reading
     = approx_l2_norm (scast (x reading)) (scast (y reading)) (scast (z reading))"
  by (simp only: fast_l2_norm_eq_spec approx_l2_norm_eq_fast simp_thms)

text \<open>
  The weights \<open>(16, 15, 6) / 16\<close> and the Cauchy-Schwarz inequality bound the result
  by \<open>sqrt (517 / 256)\<close> times the Euclidean norm.
\<close>

lemma cauchy_schwarz_16_15_6:
  "(16 * a + 15 * b + 6 * c)\<^sup>2 \<le> 517 * (a\<^sup>2 + b\<^sup>2 + c\<^sup>2)" for a b c :: int
proof -
  have "517 * (a\<^sup>2 + b\<^sup>2 + c\<^sup>2) - (16 * a + 15 * b + 6 * c)\<^sup>2
        = (16 * b - 15 * a)\<^sup>2 + (16 * c - 6 * a)\<^sup>2 + (15 * c - 6 * b)\<^sup>2"
    by (simp add: power2_eq_square algebra_simps)
  moreover have "0 \<le> (16 * b - 15 * a)\<^sup>2 + (16 * c - 6 * a)\<^sup>2 + (15 * c - 6 * b)\<^sup>2"
    by simp
  ultimately show ?thesis by linarith
qed

lemma approx_bound_int:
  fixes a b c :: int
  assumes "0 \<le> a" "0 \<le> b" "0 \<le> c"
  shows "256 * (a + (15 * b) div 16 + (3 * c) div 8)\<^sup>2 \<le> 517 * (a\<^sup>2 + b\<^sup>2 + c\<^sup>2)"
proof -
  define q where "q = (15 * b) div 16"
  define r where "r = (3 * c) div 8"
  let ?n = "a + q + r"
  have q: "0 \<le> q" "16 * q \<le> 15 * b"
    using assms by (simp_all add: q_def pos_imp_zdiv_nonneg_iff)
  have r: "0 \<le> r" "8 * r \<le> 3 * c"
    using assms by (simp_all add: r_def pos_imp_zdiv_nonneg_iff)
  have n0: "0 \<le> ?n" using assms q r by linarith
  have le: "16 * ?n \<le> 16 * a + 15 * b + 6 * c" using q r by (simp add: algebra_simps)
  have "(16 * ?n)\<^sup>2 = 16\<^sup>2 * ?n\<^sup>2" by (rule power_mult_distrib)
  then have "256 * ?n\<^sup>2 = (16 * ?n)\<^sup>2" by simp
  also have "\<dots> \<le> (16 * a + 15 * b + 6 * c)\<^sup>2"
    using n0 le by (intro power_mono) auto
  also have "\<dots> \<le> 517 * (a\<^sup>2 + b\<^sup>2 + c\<^sup>2)" by (rule cauchy_schwarz_16_15_6)
  finally show ?thesis by (simp add: q_def r_def)
qed

lemma fast_l2_norm_bound:
  "256 * (uint (fast_l2_norm reading))\<^sup>2
     \<le> 517 * ((sint (x reading))\<^sup>2 + (sint (y reading))\<^sup>2 + (sint (z reading))\<^sup>2)"
proof -
  obtain p q r
    where s: "sort3 (fast_abs16 (x reading), fast_abs16 (y reading), fast_abs16 (z reading))
                = (p, q, r)"
    by (metis prod_cases3)
  have "256 * (uint (fast_l2_norm reading))\<^sup>2
        = 256 * (uint p + (15 * uint q) div 16 + (3 * uint r) div 8)\<^sup>2"
    by (simp only: uint_fast_l2_norm[OF s])
  also have "\<dots> \<le> 517 * ((uint p)\<^sup>2 + (uint q)\<^sup>2 + (uint r)\<^sup>2)"
    by (rule approx_bound_int) simp_all
  also have "\<dots> = 517 * ((uint (fast_abs16 (x reading)))\<^sup>2
                      + (uint (fast_abs16 (y reading)))\<^sup>2
                      + (uint (fast_abs16 (z reading)))\<^sup>2)"
    by (simp only: sort3_squares[OF s])
  also have "\<dots> = 517 * ((sint (x reading))\<^sup>2 + (sint (y reading))\<^sup>2 + (sint (z reading))\<^sup>2)"
    by (simp only: uint_fast_abs16 power2_abs)
  finally show ?thesis .
qed

lemma approx_l2_spec_axis:
  "approx_l2_spec v 0 0 = \<bar>v\<bar>" "approx_l2_spec 0 v 0 = \<bar>v\<bar>" "approx_l2_spec 0 0 v = \<bar>v\<bar>"
  by (simp_all add: approx_l2_spec_def)

text \<open>The constant \<open>517 / 256\<close> is attained, at the sample \<open>(256, 240, 96)\<close>.\<close>

lemma fast_l2_norm_bound_attained:
  "256 * (uint (fast_l2_norm \<lparr>x = 256, y = 240, z = 96\<rparr>))\<^sup>2
     = 517 * ((sint (256 :: 16 word))\<^sup>2 + (sint (240 :: 16 word))\<^sup>2 + (sint (96 :: 16 word))\<^sup>2)"
  by (simp add: fast_l2_norm_eq_spec approx_l2_spec_def)

text \<open>
  C6, as stated, fails: at the sample \<open>(16, 16, 16)\<close>, none of whose axes is the minimum
  value, the result is 37 while the Euclidean norm is \<open>sqrt 768 < 27.8\<close>; the result
  exceeds the norm by more than 33 percent, and \<open>10000 * 37\<^sup>2 > 11236 * 768\<close>.
\<close>

theorem fast_l2_norm_six_percent_counterexample:
  "sint (16 :: 16 word) \<noteq> - 32768
   \<and> uint (fast_l2_norm \<lparr>x = 16, y = 16, z = 16\<rparr>) = 37
   \<and> \<not> (10000 * (uint (fast_l2_norm \<lparr>x = 16, y = 16, z = 16\<rparr>))\<^sup>2
          \<le> 11236 * ((sint (16 :: 16 word))\<^sup>2 + (sint (16 :: 16 word))\<^sup>2 + (sint (16 :: 16 word))\<^sup>2))"
proof -
  have "fast_l2_norm \<lparr>x = 16, y = 16, z = 16\<rparr> = 37"
    by code_simp
  then show ?thesis by simp
qed

text \<open>
  C6, amended.  For all triples of signed 16-bit axis values other than the minimum
  value, the square of the result is at most \<open>517 / 256\<close> times the sum of the squares
  of the axes: the result never exceeds the Euclidean norm by more than the factor
  \<open>sqrt (517 / 256)\<close>, just over 42.1 percent.  When two of the three axes are zero the
  result is the absolute value of the remaining axis.
\<close>

theorem fast_l2_norm_overshoot:
  assumes "sint (x reading) \<noteq> - 32768" "sint (y reading) \<noteq> - 32768" "sint (z reading) \<noteq> - 32768"
  shows "256 * (uint (fast_l2_norm reading))\<^sup>2
           \<le> 517 * ((sint (x reading))\<^sup>2 + (sint (y reading))\<^sup>2 + (sint (z reading))\<^sup>2)
         \<and> (y reading = 0 \<and> z reading = 0 \<longrightarrow> uint (fast_l2_norm reading) = \<bar>sint (x reading)\<bar>)
         \<and> (x reading = 0 \<and> z reading = 0 \<longrightarrow> uint (fast_l2_norm reading) = \<bar>sint (y reading)\<bar>)
         \<and> (x reading = 0 \<and> y reading = 0 \<longrightarrow> uint (fast_l2_norm reading) = \<bar>sint (z reading)\<bar>)"
proof -
  have axis: "y reading = 0 \<and> z reading = 0 \<longrightarrow> uint (fast_l2_norm reading) = \<bar>sint (x reading)\<bar>"
    "x reading = 0 \<and> z reading = 0 \<longrightarrow> uint (fast_l2_norm reading) = \<bar>sint (y reading)\<bar>"
    "x reading = 0 \<and> y reading = 0 \<longrightarrow> uint (fast_l2_norm reading) = \<bar>sint (z reading)\<bar>"
    by (simp_all add: fast_l2_norm_eq_spec approx_l2_spec_axis)
  from fast_l2_norm_bound [of reading] axis show ?thesis by blast
qed

theorem fast_l2_norm_overshoot_witness:
  "sint (0 :: 16 word) \<noteq> - 32768 \<and> sint (- 7 :: 16 word) \<noteq> - 32768
   \<and> 256 * (uint (fast_l2_norm \<lparr>x = 0, y = - 7, z = 0\<rparr>))\<^sup>2 \<le> 517 * 49
   \<and> uint (fast_l2_norm \<lparr>x = 0, y = - 7, z = 0\<rparr>) = 7"
proof -
  have h: "sint (0 :: 16 word) \<noteq> - 32768" "sint (- 7 :: 16 word) \<noteq> - 32768"
    by simp_all
  from fast_l2_norm_overshoot [of "\<lparr>x = 0, y = - 7, z = 0\<rparr>"] h show ?thesis
    by simp
qed

section \<open>Properties of the labeling page\<close>

text \<open>
  C4.  The header of the face documents LIGHT as "decrement steps by ten" and ALARM as
  "increment steps by one".  The code does the opposite: with twenty steps entered,
  LIGHT leaves 19 (not 10) and ALARM leaves 30.
\<close>

theorem labeling_light_decrements_by_one:
  "page labeling_20 = PAGE_LABELING \<and> steps labeling_20 = 20
   \<and> steps (stepcounter_logging_face_loop EVENT_LIGHT_BUTTON_DOWN labeling_20) = 19
   \<and> steps (stepcounter_logging_face_loop EVENT_ALARM_BUTTON_DOWN labeling_20) = 30"
  by code_simp

section \<open>Properties of the transmission scheduler\<close>

text \<open>
  C2.  At the end of the countdown \<open>tick_fun\<close> is set to the transmit function before
  the log file is loaded, and the result of the load is not looked at.  With the
  allocator out of memory the tick records \<open>ERROR_ALLOC_MEM\<close> and leaves the scheduler
  chirping at 64 Hz in the transmit phase, with a null buffer of length 4; four ticks
  later the divider fires, the encoder pulls a byte through the null pointer and a tone
  is sounded.
\<close>

theorem load_failure_keeps_transmitting:
  "page countdown_done = PAGE_CHIRPING \<and> chirping countdown_done
   \<and> tick_fun countdown_done = Chirp_countdown_tick \<and> seq_pos countdown_done = 24
   \<and> error (stepcounter_logging_face_loop EVENT_TICK countdown_done) = ERROR_ALLOC_MEM
   \<and> chirping (stepcounter_logging_face_loop EVENT_TICK countdown_done)
   \<and> tick_fun (stepcounter_logging_face_loop EVENT_TICK countdown_done) = Chirp_tick_transmit
   \<and> tick_frequency (stepcounter_logging_face_loop EVENT_TICK countdown_done) = 64
   \<and> chirp_data_ptr (stepcounter_logging_face_loop EVENT_TICK countdown_done) = 0
   \<and> chirp_data_len (stepcounter_logging_face_loop EVENT_TICK countdown_done) = 4
   \<and> mem_fault (((stepcounter_logging_face_loop EVENT_TICK) ^^ 5) countdown_done)
   \<and> buzzer_on (((stepcounter_logging_face_loop EVENT_TICK) ^^ 5) countdown_done)
   \<and> buzzer_period (((stepcounter_logging_face_loop EVENT_TICK) ^^ 5) countdown_done) = Period_tone 5"
  by code_simp

lemmas buzzer_defs =
  watch_set_buzzer_off_def watch_set_buzzer_on_def watch_set_buzzer_period_and_duty_cycle_def
  watch_buzzer_play_note_def movement_request_tick_frequency_def

lemma map_of_filter_removed: "map_of (filter (\<lambda>b. fst b \<noteq> p) h) p = None"
  by (induction h) auto

lemma chirp_quit_fields:
  "\<not> buzzer_on (chirp_quit m)" "\<not> chirping (chirp_quit m)" "\<not> bell_indicator (chirp_quit m)"
  "tick_frequency (chirp_quit m) = 1"
  "chirp_data_ptr (chirp_quit m) = 0" "chirp_data_ix (chirp_quit m) = 0"
  "chirp_data_len (chirp_quit m) = 0"
  by (simp_all add: chirp_quit_def Let_def free_def buzzer_defs)

lemma chirp_quit_releases:
  "chirp_data_ptr m \<noteq> 0 \<Longrightarrow> map_of (heap (chirp_quit m)) (chirp_data_ptr m) = None"
  by (auto simp add: chirp_quit_def Let_def free_def buzzer_defs map_of_filter_removed
      map_of_eq_None_iff)

lemma chirp_quit_twice: "chirp_quit (chirp_quit m) = chirp_quit m"
  by (simp add: chirp_quit_def Let_def free_def buzzer_defs)

lemma chirp_quit_idle:
  "\<not> chirping m \<Longrightarrow> chirp_data_ptr m = 0 \<Longrightarrow> chirp_data_ix m = 0 \<Longrightarrow> chirp_data_len m = 0
   \<Longrightarrow> tick_frequency m = 1 \<Longrightarrow> \<not> buzzer_on m \<Longrightarrow> \<not> bell_indicator m
   \<Longrightarrow> chirp_quit m = m"
  by (simp add: chirp_quit_def Let_def free_def buzzer_defs)

lemma chirp_next_byte_keeps:
  "chirp_data_ptr (snd (chirp_next_byte m)) = chirp_data_ptr m"
  "heap (snd (chirp_next_byte m)) = heap m"
  by (simp_all add: chirp_next_byte_def split: option.splits)

lemma pull_bytes_keeps:
  "chirp_data_ptr (pull_bytes k m) = chirp_data_ptr m \<and> heap (pull_bytes k m) = heap m"
  by (induction k arbitrary: m) (simp_all add: chirp_next_byte_keeps)

lemma chirpy_get_next_tone_keeps:
  "chirp_data_ptr (snd (chirpy_get_next_tone m)) = chirp_data_ptr m"
  "heap (snd (chirpy_get_next_tone m)) = heap m"
  by (simp_all add: chirpy_get_next_tone_def pull_bytes_keeps split: list.splits prod.splits)

text \<open>
  C7.  Whenever the encoder answers the transmit tick with the sentinel 255, the tick
  tears the transmission down: the buzzer is off, the buffer is released (its block is
  no longer live, the pointer is null, cursor and length are 0), the tick rate 1 Hz is
  requested and the \<open>chirping\<close> flag is false.
\<close>

theorem transmit_sentinel_teardown:
  assumes "fst (chirpy_get_next_tone m) = 255"
  shows "\<not> buzzer_on (chirp_tick_transmit m)
         \<and> chirp_data_ptr (chirp_tick_transmit m) = 0
         \<and> chirp_data_ix (chirp_tick_transmit m) = 0
         \<and> chirp_data_len (chirp_tick_transmit m) = 0
         \<and> tick_frequency (chirp_tick_transmit m) = 1
         \<and> \<not> chirping (chirp_tick_transmit m)
         \<and> (chirp_data_ptr m \<noteq> 0 \<longrightarrow>
              map_of (heap (chirp_tick_transmit m)) (chirp_data_ptr m) = None)"
proof -
  obtain tone m1 where t: "chirpy_get_next_tone m = (tone, m1)"
    by (cases "chirpy_get_next_tone m")
  with assms have q: "chirp_tick_transmit m = chirp_quit m1"
    by (simp add: chirp_tick_transmit_def)
  have p: "chirp_data_ptr m1 = chirp_data_ptr m"
    using chirpy_get_next_tone_keeps(1) [of m] t by simp
  have "chirp_data_ptr m \<noteq> 0 \<longrightarrow> map_of (heap (chirp_quit m1)) (chirp_data_ptr m) = None"
    using chirp_quit_releases [of m1] p by simp
  then show ?thesis
    by (simp add: q chirp_quit_fields)
qed

theorem transmit_sentinel_teardown_witness:
  "fst (chirpy_get_next_tone transmit_done) = 255
   \<and> buzzer_on transmit_done \<and> chirp_data_ptr transmit_done = 1
   \<and> map_of (heap transmit_done) 1 = Some [7, 8]
   \<and> \<not> buzzer_on (chirp_tick_transmit transmit_done)
   \<and> chirp_data_ptr (chirp_tick_transmit transmit_done) = 0
   \<and> chirp_data_ix (chirp_tick_transmit transmit_done) = 0
   \<and> chirp_data_len (chirp_tick_transmit transmit_done) = 0
   \<and> tick_frequency (chirp_tick_transmit transmit_done) = 1
   \<and> \<not> chirping (chirp_tick_transmit transmit_done)
   \<and> map_of (heap (chirp_tick_transmit transmit_done)) 1 = None"
proof -
  have h: "fst (chirpy_get_next_tone transmit_done) = 255"
    by code_simp
  have c: "buzzer_on transmit_done" "chirp_data_ptr transmit_done = 1"
    "map_of (heap transmit_done) 1 = Some [7, 8]"
    by (simp_all add: transmit_done_def power_on_def)
  from transmit_sentinel_teardown [OF h] h c show ?thesis
    by simp
qed

lemma switch_to_recording_keeps:
  "chirp_data_ptr (switch_to_recording m) = chirp_data_ptr m"
  "chirp_data_ix (switch_to_recording m) = chirp_data_ix m"
  "chirp_data_len (switch_to_recording m) = chirp_data_len m"
  "chirping (switch_to_recording m) = chirping m"
  "tick_frequency (switch_to_recording m) = 1"
  "buzzer_on (switch_to_recording m) = (\<not> button_sound m \<and> buzzer_on m)"
  "bell_indicator (switch_to_recording m) = bell_indicator m"
  "heap (switch_to_recording m) = heap m"
  "mem_fault (switch_to_recording m) = mem_fault m"
  "button_sound (switch_to_recording m) = button_sound m"
  by (simp_all add: switch_to_recording_def beep_def buzzer_defs)

lemma delete_log_file_keeps:
  "chirp_data_ptr (delete_log_file m) = chirp_data_ptr m"
  "chirp_data_ix (delete_log_file m) = chirp_data_ix m"
  "chirp_data_len (delete_log_file m) = chirp_data_len m"
  "chirping (delete_log_file m) = chirping m"
  "heap (delete_log_file m) = heap m"
  "mem_fault (delete_log_file m) = mem_fault m"
  "buzzer_on (delete_log_file m) = buzzer_on m"
  "bell_indicator (delete_log_file m) = bell_indicator m"
  "button_sound (delete_log_file m) = button_sound m"
  by (simp_all add: delete_log_file_def lfs_remove_def split: option.splits)

lemma chirp_quit_button_sound: "button_sound (chirp_quit m) = button_sound m"
  by (simp add: chirp_quit_def Let_def free_def buzzer_defs)

lemma cancel_mode_twice:
  "scheduler_state (chirping_loop EVENT_MODE_BUTTON_UP (chirping_loop EVENT_MODE_BUTTON_UP m))
     = scheduler_state (chirping_loop EVENT_MODE_BUTTON_UP m)"
  by (simp add: scheduler_state_def switch_to_recording_keeps chirp_quit_fields
      chirp_quit_button_sound)

lemma cancel_light_twice:
  "scheduler_state (chirping_loop EVENT_LIGHT_LONG_PRESS (chirping_loop EVENT_LIGHT_LONG_PRESS m))
     = scheduler_state (chirping_loop EVENT_LIGHT_LONG_PRESS m)"
  by (simp add: scheduler_state_def switch_to_recording_keeps delete_log_file_keeps
      chirp_quit_fields chirp_quit_button_sound)

text \<open>
  C8.  The teardown \<open>_chirp_quit\<close> is idempotent: a second invocation right after a
  first one changes nothing, so in particular it leaves the allocator alone (the heap
  and the fault flag are those of the first invocation: the buffer is not freed
  twice).  After one invocation the scheduler is idle: buffer null, cursor and length
  0, \<open>chirping\<close> false, tick rate 1 Hz, buzzer off.  Invoked on an idle scheduler it
  changes nothing.  Each of the two cancel events of the chirping page, handled by
  \<open>_chirping_loop\<close> twice in a row, leaves the scheduler and the heap as handled once.
\<close>

theorem chirp_quit_idempotent:
  "chirp_quit (chirp_quit m) = chirp_quit m
   \<and> heap (chirp_quit (chirp_quit m)) = heap (chirp_quit m)
   \<and> mem_fault (chirp_quit (chirp_quit m)) = mem_fault (chirp_quit m)
   \<and> chirp_data_ptr (chirp_quit m) = 0 \<and> chirp_data_ix (chirp_quit m) = 0
   \<and> chirp_data_len (chirp_quit m) = 0 \<and> \<not> chirping (chirp_quit m)
   \<and> tick_frequency (chirp_quit m) = 1 \<and> \<not> buzzer_on (chirp_quit m)
   \<and> (\<not> chirping m \<and> chirp_data_ptr m = 0 \<and> chirp_data_ix m = 0 \<and> chirp_data_len m = 0
        \<and> tick_frequency m = 1 \<and> \<not> buzzer_on m \<and> \<not> bell_indicator m
        \<longrightarrow> chirp_quit m = m)
   \<and> scheduler_state (chirping_loop EVENT_MODE_BUTTON_UP (chirping_loop EVENT_MODE_BUTTON_UP m))
       = scheduler_state (chirping_loop EVENT_MODE_BUTTON_UP m)
   \<and> scheduler_state (chirping_loop EVENT_LIGHT_LONG_PRESS (chirping_loop EVENT_LIGHT_LONG_PRESS m))
       = scheduler_state (chirping_loop EVENT_LIGHT_LONG_PRESS m)"
proof -
  have idle: "\<not> chirping m \<and> chirp_data_ptr m = 0 \<and> chirp_data_ix m = 0 \<and> chirp_data_len m = 0
        \<and> tick_frequency m = 1 \<and> \<not> buzzer_on m \<and> \<not> bell_indicator m
        \<longrightarrow> chirp_quit m = m"
    by (simp add: chirp_quit_idle)
  from idle cancel_mode_twice [of m] cancel_light_twice [of m] show ?thesis
    by (simp only: chirp_quit_twice chirp_quit_fields simp_thms)
qed

theorem chirp_quit_idempotent_witness:
  "\<not> chirping power_on \<and> chirp_data_ptr power_on = 0 \<and> chirp_data_ix power_on = 0
   \<and> chirp_data_len power_on = 0 \<and> tick_frequency power_on = 1 \<and> \<not> buzzer_on power_on
   \<and> \<not> bell_indicator power_on \<and> chirp_quit power_on = power_on
   \<and> chirp_quit (chirp_quit transmit_done) = chirp_quit transmit_done
   \<and> heap transmit_done = [(1, [7, 8])] \<and> heap (chirp_quit transmit_done) = []
   \<and> \<not> mem_fault (chirp_quit (chirp_quit transmit_done))"
proof -
  have h: "\<not> chirping power_on \<and> chirp_data_ptr power_on = 0 \<and> chirp_data_ix power_on = 0
     \<and> chirp_data_len power_on = 0 \<and> tick_frequency power_on = 1 \<and> \<not> buzzer_on power_on
     \<and> \<not> bell_indicator power_on"
    by (simp add: power_on_def)
  have e: "heap transmit_done = [(1, [7, 8])]" "heap (chirp_quit transmit_done) = []"
    "\<not> mem_fault (chirp_quit transmit_done)"
    by code_simp+
  from chirp_quit_idempotent [of power_on] h have 1: "chirp_quit power_on = power_on"
    by blast
  from chirp_quit_idempotent [of transmit_done]
  have 2: "chirp_quit (chirp_quit transmit_done) = chirp_quit transmit_done"
    by blast
  from h 1 2 e show ?thesis by simp
qed

section \<open>Properties of the log writer and of the recording page\<close>

text \<open>
  C3.  When \<open>lfs_file_open\<close> fails at the start of a session, \<open>_log_open\<close> records the
  error and returns, and \<open>_start_recording\<close> goes on: it sets \<open>start_ts\<close> to the clock
  and writes the header through the handle that is not open.  After the event
  \<open>start_ts\<close> is nonzero and no file is open.
\<close>

theorem start_recording_after_failed_open:
  "page open_fails = PAGE_RECORDING \<and> start_ts open_fails = 0 \<and> \<not> file_open open_fails
   \<and> fst (lfs_file_open open_fails) < 0
   \<and> start_ts (stepcounter_logging_face_loop EVENT_ALARM_BUTTON_UP open_fails) = 1000
   \<and> \<not> file_open (stepcounter_logging_face_loop EVENT_ALARM_BUTTON_UP open_fails)
   \<and> error (stepcounter_logging_face_loop EVENT_ALARM_BUTTON_UP open_fails) = ERROR_WRITE_HEADER"
  by code_simp

lemma lfs_file_write_keeps:
  "start_ts (snd (lfs_file_write buf m)) = start_ts m"
  "index (snd (lfs_file_write buf m)) = index m"
  "page (snd (lfs_file_write buf m)) = page m"
  "steps (snd (lfs_file_write buf m)) = steps m"
  "error (snd (lfs_file_write buf m)) = error m"
  "data_type (snd (lfs_file_write buf m)) = data_type m"
  "file_open (snd (lfs_file_write buf m)) = file_open m"
  "button_sound (snd (lfs_file_write buf m)) = button_sound m"
  by (simp_all add: lfs_file_write_def append_log_def split: list.splits)

lemma lfs_file_write_free_space:
  "free_space (snd (lfs_file_write buf m)) \<le> free_space m"
  by (simp add: lfs_file_write_def append_log_def split: list.splits)

text \<open>
  C10.  If the write of the marker byte or the write of the two-byte step count is
  short, \<open>_log_steps\<close> sets \<open>ERROR_WRITE_DATA\<close>, leaves the pending step count as it
  was and returns without closing the handle: the handle is in the state
  \<open>_log_open\<close> left it in, open if the open succeeded.
\<close>

theorem log_steps_short_write:
  assumes "(word_of_int (fst (lfs_file_write [LOG_FILE_MARKER] (log_open m))) :: 32 word) \<noteq> 1
           \<or> (word_of_int (fst (lfs_file_write (le16 (steps m))
                  (snd (lfs_file_write [LOG_FILE_MARKER] (log_open m))))) :: 32 word) \<noteq> 2"
  shows "error (log_steps m) = ERROR_WRITE_DATA
         \<and> steps (log_steps m) = steps m
         \<and> file_open (log_steps m) = file_open (log_open m)
         \<and> (0 \<le> fst (lfs_file_open m) \<longrightarrow> file_open (log_steps m))"
proof -
  have s0: "steps (log_open m) = steps m"
    by (simp add: log_open_def lfs_file_open_def Let_def split: list.splits)
  have o: "0 \<le> fst (lfs_file_open m) \<longrightarrow> file_open (log_open m)"
    by (simp add: log_open_def lfs_file_open_def Let_def split: list.splits)
  have "error (log_steps m) = ERROR_WRITE_DATA
         \<and> steps (log_steps m) = steps m
         \<and> file_open (log_steps m) = file_open (log_open m)"
    using assms
    by (auto simp add: log_steps_def Let_def split_def lfs_file_write_keeps s0)
  with o show ?thesis by simp
qed

theorem log_steps_short_write_witness:
  "(word_of_int (fst (lfs_file_write (le16 (steps labeling_short_write))
       (snd (lfs_file_write [LOG_FILE_MARKER] (log_open labeling_short_write))))) :: 32 word) \<noteq> 2
   \<and> 0 \<le> fst (lfs_file_open labeling_short_write)
   \<and> error (log_steps labeling_short_write) = ERROR_WRITE_DATA
   \<and> steps (log_steps labeling_short_write) = 23
   \<and> file_open (log_steps labeling_short_write)
   \<and> log_file (log_steps labeling_short_write) = Some [0xff]"
proof -
  have h: "(word_of_int (fst (lfs_file_write (le16 (steps labeling_short_write))
       (snd (lfs_file_write [LOG_FILE_MARKER] (log_open labeling_short_write))))) :: 32 word) \<noteq> 2"
    by code_simp
  have c: "0 \<le> fst (lfs_file_open labeling_short_write)" "steps labeling_short_write = 23"
    "log_file (log_steps labeling_short_write) = Some [0xff]"
    by code_simp+
  note r = log_steps_short_write [OF disjI2 [OF h]]
  from r have r1: "error (log_steps labeling_short_write) = ERROR_WRITE_DATA"
    by blast
  from r have r2: "steps (log_steps labeling_short_write) = steps labeling_short_write"
    by blast
  from r c(1) have r3: "file_open (log_steps labeling_short_write)"
    by blast
  from h c r1 r2 r3 show ?thesis
    by (simp only: simp_thms)
qed

lemma log_xyz_keeps:
  assumes "log_xyz r m = Inl m' \<or> log_xyz r m = Inr m'"
  shows "start_ts m' = start_ts m \<and> index m' = index m \<and> page m' = page m
         \<and> button_sound m' = button_sound m \<and> data_type m' = data_type m
         \<and> free_space m' \<le> free_space m"
proof (cases "data_type m AND LOG_DATA_XYZ \<noteq> 0")
  case False
  with assms show ?thesis by (simp add: log_xyz_def)
next
  case True
  let ?m1 = "snd (lfs_file_write (le16 (x r)) m)"
  let ?m2 = "snd (lfs_file_write (le16 (y r)) ?m1)"
  let ?m3 = "snd (lfs_file_write (le16 (z r)) ?m2)"
  from assms True have m': "m' = ?m3"
    by (auto simp add: log_xyz_def Let_def split_def split: if_splits)
  have "free_space ?m3 \<le> free_space ?m2" "free_space ?m2 \<le> free_space ?m1"
    "free_space ?m1 \<le> free_space m"
    by (rule lfs_file_write_free_space)+
  then have "free_space ?m3 \<le> free_space m" by linarith
  then show ?thesis by (simp add: m' lfs_file_write_keeps)
qed

lemma log_mag_keeps:
  assumes "log_mag r m = Inl m' \<or> log_mag r m = Inr m'"
  shows "start_ts m' = start_ts m \<and> index m' = index m \<and> page m' = page m
         \<and> button_sound m' = button_sound m \<and> data_type m' = data_type m
         \<and> free_space m' \<le> free_space m"
proof (cases "data_type m AND LOG_DATA_MAG \<noteq> 0")
  case False
  with assms show ?thesis by (simp add: log_mag_def)
next
  case True
  with assms obtain buf where m': "m' = snd (lfs_file_write buf m)"
    by (auto simp add: log_mag_def Let_def split_def split: if_splits)
  show ?thesis by (simp add: m' lfs_file_write_keeps lfs_file_write_free_space)
qed

lemma log_readings_keeps:
  "log_readings rs m = Inl m' \<or> log_readings rs m = Inr m' \<Longrightarrow>
   start_ts m' = start_ts m \<and> index m' = index m \<and> page m' = page m
   \<and> button_sound m' = button_sound m \<and> data_type m' = data_type m
   \<and> free_space m' \<le> free_space m"
proof (induction rs arbitrary: m)
  case Nil
  then show ?case by simp
next
  case (Cons r rs)
  show ?case
  proof (cases "log_xyz r m")
    case (Inl e)
    with Cons.prems have "m' = e" by simp
    with log_xyz_keeps [of r m e] Inl show ?thesis by simp
  next
    case x: (Inr m1)
    note k1 = log_xyz_keeps [of r m m1, OF disjI2 [OF x]]
    show ?thesis
    proof (cases "log_mag r m1")
      case (Inl e)
      with Cons.prems x have "m' = e" by simp
      with log_mag_keeps [of r m1 e] Inl k1 show ?thesis by simp
    next
      case g: (Inr m2)
      note k2 = log_mag_keeps [of r m1 m2, OF disjI2 [OF g]]
      from Cons.prems x g
      have "log_readings rs m2 = Inl m' \<or> log_readings rs m2 = Inr m'" by simp
      from Cons.IH [OF this] k1 k2 show ?thesis by simp
    qed
  qed
qed

lemma log_data_keeps:
  "start_ts (log_data fifo m) = start_ts m \<and> index (log_data fifo m) = index m
   \<and> page (log_data fifo m) = page m \<and> button_sound (log_data fifo m) = button_sound m
   \<and> free_space (log_data fifo m) \<le> free_space m"
proof (cases "count fifo = 0")
  case True
  then show ?thesis by (simp add: log_data_def)
next
  case False
  let ?m1 = "snd (lfs_file_write [count fifo] m)"
  have k0: "start_ts ?m1 = start_ts m \<and> index ?m1 = index m \<and> page ?m1 = page m
            \<and> button_sound ?m1 = button_sound m \<and> free_space ?m1 \<le> free_space m"
    by (simp add: lfs_file_write_keeps lfs_file_write_free_space)
  show ?thesis
  proof (cases "(word_of_int (fst (lfs_file_write [count fifo] m)) :: 32 word) \<noteq> 1")
    case True
    with False k0 show ?thesis
      by (simp add: log_data_def Let_def split_def)
  next
    case ok: False
    show ?thesis
    proof (cases "log_readings (take (unat (count fifo)) (readings fifo)) ?m1")
      case l: (Inl e)
      note k1 = log_readings_keeps [OF disjI1 [OF l]]
      from l False ok have "log_data fifo m = e\<lparr>error := ERROR_WRITE_DATA\<rparr>"
        by (simp add: log_data_def Let_def split_def)
      with k0 k1 show ?thesis by simp
    next
      case r: (Inr m2)
      note k1 = log_readings_keeps [OF disjI2 [OF r]]
      from r False ok have "log_data fifo m = m2"
        by (simp add: log_data_def Let_def split_def)
      with k0 k1 show ?thesis by simp
    qed
  qed
qed

lemma quota_stop_fields:
  "start_ts (switch_to_labeling (stop_recording m)) = 0"
  "index (switch_to_labeling (stop_recording m)) = index m + 1"
  "\<not> file_open (switch_to_labeling (stop_recording m))"
  "page (switch_to_labeling (stop_recording m)) = PAGE_LABELING"
  "tick_frequency (switch_to_labeling (stop_recording m)) = 4"
  "log_file (switch_to_labeling (stop_recording m)) = log_file m"
  by (simp_all add: switch_to_labeling_def stop_recording_def Let_def beep_def log_close_def
      lfs_file_close_def buzzer_defs)

lemma lis2dw_clear_fifo_keeps:
  "free_space (lis2dw_clear_fifo m) = free_space m"
  "index (lis2dw_clear_fifo m) = index m"
  "log_file (lis2dw_clear_fifo m) = log_file m"
  by (simp_all add: lis2dw_clear_fifo_def)

text \<open>What \<open>_log_data\<close> leaves in the file when every write is accepted, and when one is short.\<close>

lemma append_log_keeps:
  "file_open (append_log buf m) = file_open m"
  "write_results (append_log buf m) = write_results m"
  "data_type (append_log buf m) = data_type m"
  "error (append_log buf m) = error m"
  "log_contents (append_log buf m) = log_contents m @ buf"
  "log_file (append_log buf m) = Some (log_contents m @ buf)"
  "log_file (append_log buf m) \<noteq> None"
  by (simp_all add: append_log_def log_contents_def)

lemma lfs_file_write_accepts:
  "file_open m \<Longrightarrow> write_results m = [] \<Longrightarrow>
   lfs_file_write buf m = (int (length buf), append_log buf m)"
  by (simp add: lfs_file_write_def)

lemma lfs_file_write_scripted:
  "file_open m \<Longrightarrow> write_results m = r # rs \<Longrightarrow>
   lfs_file_write buf m = (r, append_log (take (nat r) buf) (m\<lparr>write_results := rs\<rparr>))"
  by (simp add: lfs_file_write_def)

lemma ucast_and_ff: "(ucast ((w::32 word) AND 0xFF) :: 8 word) = ucast w"
proof -
  have m: "(0xFF :: 32 word) = mask 8"
    by (simp add: mask_eq_exp_minus_1)
  show ?thesis
    unfolding m by (rule bit_word_eqI) (auto simp add: bit_simps)
qed

lemma log_xyz_accepts:
  assumes "file_open m" "write_results m = []" "log_file m \<noteq> None"
  shows "\<exists>m'. log_xyz r m = Inr m' \<and> file_open m' \<and> write_results m' = []
           \<and> log_file m' \<noteq> None
           \<and> data_type m' = data_type m \<and> error m' = error m
           \<and> log_contents m' = log_contents m
                @ (if data_type m AND LOG_DATA_XYZ \<noteq> 0 then le16 (x r) @ le16 (y r) @ le16 (z r) else [])"
  using assms
  by (simp add: log_xyz_def lfs_file_write_accepts append_log_keeps le16_def)

lemma log_mag_accepts:
  assumes "file_open m" "write_results m = []" "log_file m \<noteq> None"
  shows "\<exists>m'. log_mag r m = Inr m' \<and> file_open m' \<and> write_results m' = []
           \<and> log_file m' \<noteq> None
           \<and> data_type m' = data_type m \<and> error m' = error m
           \<and> log_contents m' = log_contents m
                @ (if data_type m AND LOG_DATA_MAG \<noteq> 0 then mag_bytes (data_type m) r else [])"
  using assms
  by (simp add: log_mag_def Let_def lfs_file_write_accepts append_log_keeps mag_bytes_def
      ucast_and_ff)

lemma log_readings_accepts:
  "file_open m \<Longrightarrow> write_results m = [] \<Longrightarrow> log_file m \<noteq> None \<Longrightarrow>
   \<exists>m'. log_readings rs m = Inr m' \<and> file_open m' \<and> write_results m' = []
         \<and> log_file m' \<noteq> None
         \<and> data_type m' = data_type m \<and> error m' = error m
         \<and> log_contents m' = log_contents m @ concat (map (sample_bytes (data_type m)) rs)"
proof (induction rs arbitrary: m)
  case Nil
  then show ?case by simp
next
  case (Cons r rs)
  from log_xyz_accepts [OF Cons.prems, of r] obtain m1 where
    1: "log_xyz r m = Inr m1" "file_open m1" "write_results m1 = []" "log_file m1 \<noteq> None"
       "data_type m1 = data_type m" "error m1 = error m"
       "log_contents m1 = log_contents m
          @ (if data_type m AND LOG_DATA_XYZ \<noteq> 0 then le16 (x r) @ le16 (y r) @ le16 (z r) else [])"
    by blast
  from log_mag_accepts [OF 1(2,3,4), of r] obtain m2 where
    2: "log_mag r m1 = Inr m2" "file_open m2" "write_results m2 = []" "log_file m2 \<noteq> None"
       "data_type m2 = data_type m1" "error m2 = error m1"
       "log_contents m2 = log_contents m1
          @ (if data_type m1 AND LOG_DATA_MAG \<noteq> 0 then mag_bytes (data_type m1) r else [])"
    by blast
  from Cons.IH [OF 2(2,3,4)] obtain m3 where
    3: "log_readings rs m2 = Inr m3" "file_open m3" "write_results m3 = []" "log_file m3 \<noteq> None"
       "data_type m3 = data_type m2" "error m3 = error m2"
       "log_contents m3 = log_contents m2 @ concat (map (sample_bytes (data_type m2)) rs)"
    by blast
  have "log_readings (r # rs) m = Inr m3"
    by (simp add: 1(1) 2(1) 3(1))
  moreover have "log_contents m3
      = log_contents m @ concat (map (sample_bytes (data_type m)) (r # rs))"
    by (simp add: 3(7) 2(7) 1(7) 2(5) 1(5) sample_bytes_def)
  ultimately show ?case
    using 3(2,3,4,5,6) 2(5,6) 1(5,6) by simp
qed

lemma log_data_accepts:
  assumes "file_open m" "write_results m = []" "count fifo \<noteq> 0"
  shows "log_file (log_data fifo m) = Some (log_contents m @ data_block (data_type m) fifo)
         \<and> error (log_data fifo m) = error m"
proof -
  let ?m1 = "append_log [count fifo] m"
  have w: "lfs_file_write [count fifo] m = (1, ?m1)"
    using assms by (simp add: lfs_file_write_accepts)
  have g: "file_open ?m1" "write_results ?m1 = []" "log_file ?m1 \<noteq> None"
    using assms by (simp_all add: append_log_keeps)
  from log_readings_accepts [OF g, of "take (unat (count fifo)) (readings fifo)"] obtain m2 where
    2: "log_readings (take (unat (count fifo)) (readings fifo)) ?m1 = Inr m2"
       "error m2 = error ?m1"
       "log_contents m2 = log_contents ?m1
          @ concat (map (sample_bytes (data_type ?m1)) (take (unat (count fifo)) (readings fifo)))"
       "log_file m2 \<noteq> None"
    by blast
  have d: "log_data fifo m = m2"
    using assms(3) by (simp add: log_data_def w 2(1))
  from 2(4) have "log_file m2 = Some (log_contents m2)"
    by (auto simp add: log_contents_def)
  then show ?thesis
    by (simp add: d 2 append_log_keeps data_block_def)
qed

lemma log_data_count_short:
  assumes "file_open m" "write_results m = r # rs" "(word_of_int r :: 32 word) \<noteq> 1"
    "count fifo \<noteq> 0"
  shows "log_file (log_data fifo m) = Some (log_contents m @ take (nat r) [count fifo])
         \<and> error (log_data fifo m) = ERROR_WRITE_DATA"
  using assms
  by (simp add: log_data_def lfs_file_write_scripted append_log_keeps log_contents_def)

lemma log_data_mag_short:
  assumes "file_open m" "write_results m = 1 # r # rs" "(word_of_int r :: 32 word) \<noteq> 3"
    "count fifo \<noteq> 0" "data_type m AND LOG_DATA_XYZ = 0" "data_type m AND LOG_DATA_MAG \<noteq> 0"
    "readings fifo = s # ss"
  shows "log_file (log_data fifo m)
           = Some (log_contents m @ count fifo # take (nat r) (mag_bytes (data_type m) s))
         \<and> error (log_data fifo m) = ERROR_WRITE_DATA"
proof -
  let ?m1 = "append_log [count fifo] (m\<lparr>write_results := r # rs\<rparr>)"
  have w: "lfs_file_write [count fifo] m = (1, ?m1)"
    using assms(1,2) by (simp add: lfs_file_write_scripted)
  have n: "unat (count fifo) \<noteq> 0"
    using assms(4) by (simp add: unat_eq_0)
  then have t: "take (unat (count fifo)) (readings fifo) = s # take (unat (count fifo) - 1) ss"
    by (simp add: assms(7) take_Cons')
  have g: "file_open ?m1" "write_results ?m1 = r # rs" "data_type ?m1 = data_type m"
    "log_contents ?m1 = log_contents m @ [count fifo]"
    using assms(1) by (simp_all add: append_log_keeps log_contents_def append_log_def)
  have x: "log_xyz s ?m1 = Inr ?m1"
    using assms(5) g(3) by (simp add: log_xyz_def)
  let ?m2 = "append_log (take (nat r) (mag_bytes (data_type m) s)) (?m1\<lparr>write_results := rs\<rparr>)"
  have mg: "log_mag s ?m1 = Inl ?m2"
    using assms(3,6) g
    by (simp add: log_mag_def Let_def lfs_file_write_scripted mag_bytes_def ucast_and_ff)
  have d: "log_data fifo m = ?m2\<lparr>error := ERROR_WRITE_DATA\<rparr>"
    using assms(4) by (simp add: log_data_def w t x mg)
  show ?thesis
    by (simp add: d append_log_keeps g log_contents_def append_log_def)
qed

lemma quota_stop_error:
  "error (switch_to_labeling (stop_recording m)) = error m"
  by (simp add: switch_to_labeling_def stop_recording_def Let_def beep_def log_close_def
      lfs_file_close_def buzzer_defs)

lemma lis2dw_clear_fifo_error: "error (lis2dw_clear_fifo m) = error m"
  by (simp add: lis2dw_clear_fifo_def)

text \<open>
  C1, as stated, fails: the tick handler logs the samples of the tick before it looks
  at the free space.  In a running session with 100 bytes free and one sample waiting,
  the tick appends the block \<open>[1, 6, 0, 0]\<close> (count 1, magnitude 6) to the log file and
  only then ends the session.
\<close>

theorem quota_tick_writes_block:
  "page low_space_session = PAGE_RECORDING \<and> start_ts low_space_session \<noteq> 0
   \<and> free_space low_space_session < MIN_FS_SPACE
   \<and> log_file low_space_session = Some []
   \<and> log_file (stepcounter_logging_face_loop EVENT_TICK low_space_session) = Some [1, 6, 0, 0]
   \<and> page (stepcounter_logging_face_loop EVENT_TICK low_space_session) = PAGE_LABELING"
  by code_simp

text \<open>
  C1, amended.  For every tick event delivered in recording mode while a session is
  active, if the free space is below the threshold of 512 bytes at the start of the
  tick, the handler ends the session (the file is closed, \<open>start_ts\<close> is 0, \<open>index\<close> is
  incremented) and switches to the labeling page at 4 Hz, but only after it has handed
  the samples of the tick to \<open>_log_data\<close>; the file and the error code after the tick
  are those \<open>_log_data\<close> leaves.  So the tick may write, and a block may be partial:

  \<^item> with an empty sample buffer nothing is written and the error code is untouched;
  \<^item> with a non-empty buffer, the file open and every write accepted in full, exactly
    one complete data block (the count byte, then the fields of each sample that
    \<open>data_type\<close> selects) is appended and the error code is untouched;
  \<^item> if the write of the count byte is short, only the bytes that write accepted are
    appended and the error is \<open>ERROR_WRITE_DATA\<close>;
  \<^item> in the magnitude-only format, if the count byte is accepted and the write of the
    first magnitude is short, the count byte and the accepted bytes of the magnitude
    are appended, a partial block, and the error is \<open>ERROR_WRITE_DATA\<close>.
\<close>

theorem quota_tick_ends_session:
  assumes "page m = PAGE_RECORDING" "start_ts m \<noteq> 0" "free_space m < MIN_FS_SPACE"
  shows "start_ts (stepcounter_logging_face_loop EVENT_TICK m) = 0
         \<and> index (stepcounter_logging_face_loop EVENT_TICK m) = index m + 1
         \<and> \<not> file_open (stepcounter_logging_face_loop EVENT_TICK m)
         \<and> page (stepcounter_logging_face_loop EVENT_TICK m) = PAGE_LABELING
         \<and> tick_frequency (stepcounter_logging_face_loop EVENT_TICK m) = 4
         \<and> log_file (stepcounter_logging_face_loop EVENT_TICK m)
             = log_file (log_data (lis2dw_read_fifo m) m)
         \<and> error (stepcounter_logging_face_loop EVENT_TICK m)
             = error (log_data (lis2dw_read_fifo m) m)
         \<and> (count (lis2dw_read_fifo m) = 0 \<longrightarrow>
              log_file (stepcounter_logging_face_loop EVENT_TICK m) = log_file m
              \<and> error (stepcounter_logging_face_loop EVENT_TICK m) = error m)
         \<and> (count (lis2dw_read_fifo m) \<noteq> 0 \<and> file_open m \<and> write_results m = [] \<longrightarrow>
              log_file (stepcounter_logging_face_loop EVENT_TICK m)
                = Some (log_contents m @ data_block (data_type m) (lis2dw_read_fifo m))
              \<and> error (stepcounter_logging_face_loop EVENT_TICK m) = error m)
         \<and> (count (lis2dw_read_fifo m) \<noteq> 0 \<and> file_open m \<and> write_results m = r # rs
              \<and> (word_of_int r :: 32 word) \<noteq> 1 \<longrightarrow>
              log_file (stepcounter_logging_face_loop EVENT_TICK m)
                = Some (log_contents m @ take (nat r) [count (lis2dw_read_fifo m)])
              \<and> error (stepcounter_logging_face_loop EVENT_TICK m) = ERROR_WRITE_DATA)
         \<and> (count (lis2dw_read_fifo m) \<noteq> 0 \<and> file_open m \<and> write_results m = 1 # r2 # rs2
              \<and> (word_of_int r2 :: 32 word) \<noteq> 3
              \<and> data_type m AND LOG_DATA_XYZ = 0 \<and> data_type m AND LOG_DATA_MAG \<noteq> 0
              \<and> readings (lis2dw_read_fifo m) = s # ss \<longrightarrow>
              log_file (stepcounter_logging_face_loop EVENT_TICK m)
                = Some (log_contents m @ count (lis2dw_read_fifo m)
                          # take (nat r2) (mag_bytes (data_type m) s))
              \<and> error (stepcounter_logging_face_loop EVENT_TICK m) = ERROR_WRITE_DATA)"
proof -
  let ?f = "lis2dw_read_fifo m"
  let ?m1 = "lis2dw_clear_fifo (log_data ?f m)"
  note k = log_data_keeps [of ?f m]
  have "free_space ?m1 \<le> free_space m"
    using k by (simp add: lis2dw_clear_fifo_keeps)
  with assms(3) have "filesystem_get_free_space ?m1 < MIN_FS_SPACE"
    by (simp add: filesystem_get_free_space_def)
  then have q: "enforce_quota ?m1 = switch_to_labeling (stop_recording ?m1)"
    by (simp add: enforce_quota_def)
  from assms(1,2) have l: "stepcounter_logging_face_loop EVENT_TICK m = enforce_quota ?m1"
    by (simp add: stepcounter_logging_face_loop_def)
  have c1: "start_ts (stepcounter_logging_face_loop EVENT_TICK m) = 0"
    "\<not> file_open (stepcounter_logging_face_loop EVENT_TICK m)"
    "page (stepcounter_logging_face_loop EVENT_TICK m) = PAGE_LABELING"
    "tick_frequency (stepcounter_logging_face_loop EVENT_TICK m) = 4"
    by (simp_all add: l q quota_stop_fields)
  have c2: "index (stepcounter_logging_face_loop EVENT_TICK m) = index m + 1"
    using k by (simp add: l q quota_stop_fields lis2dw_clear_fifo_keeps)
  have f: "log_file (stepcounter_logging_face_loop EVENT_TICK m) = log_file (log_data ?f m)"
    by (simp add: l q quota_stop_fields lis2dw_clear_fifo_keeps)
  have e: "error (stepcounter_logging_face_loop EVENT_TICK m) = error (log_data ?f m)"
    by (simp add: l q quota_stop_error lis2dw_clear_fifo_error)
  have empty: "count ?f = 0 \<longrightarrow>
      log_file (stepcounter_logging_face_loop EVENT_TICK m) = log_file m
      \<and> error (stepcounter_logging_face_loop EVENT_TICK m) = error m"
    by (simp add: f e log_data_def)
  have full: "count ?f \<noteq> 0 \<and> file_open m \<and> write_results m = [] \<longrightarrow>
      log_file (stepcounter_logging_face_loop EVENT_TICK m)
        = Some (log_contents m @ data_block (data_type m) ?f)
      \<and> error (stepcounter_logging_face_loop EVENT_TICK m) = error m"
    using log_data_accepts [of m ?f] by (simp add: f e)
  have short1: "count ?f \<noteq> 0 \<and> file_open m \<and> write_results m = r # rs
      \<and> (word_of_int r :: 32 word) \<noteq> 1 \<longrightarrow>
      log_file (stepcounter_logging_face_loop EVENT_TICK m)
        = Some (log_contents m @ take (nat r) [count ?f])
      \<and> error (stepcounter_logging_face_loop EVENT_TICK m) = ERROR_WRITE_DATA"
    using log_data_count_short [of m r rs ?f] by (simp add: f e)
  have short2: "count ?f \<noteq> 0 \<and> file_open m \<and> write_results m = 1 # r2 # rs2
      \<and> (word_of_int r2 :: 32 word) \<noteq> 3
      \<and> data_type m AND LOG_DATA_XYZ = 0 \<and> data_type m AND LOG_DATA_MAG \<noteq> 0
      \<and> readings ?f = s # ss \<longrightarrow>
      log_file (stepcounter_logging_face_loop EVENT_TICK m)
        = Some (log_contents m @ count ?f # take (nat r2) (mag_bytes (data_type m) s))
      \<and> error (stepcounter_logging_face_loop EVENT_TICK m) = ERROR_WRITE_DATA"
    using log_data_mag_short [of m r2 rs2 ?f s ss] by (simp add: f e)
  from c1 c2 f e empty full short1 short2 show ?thesis by blast
qed

text \<open>
  The four cases on concrete sessions.  The last one is reached by events: a session
  begun by the ALARM button with 15 bytes free has 2 bytes left after its header, and
  the next tick leaves the count byte of its block alone in the file.
\<close>

theorem quota_tick_ends_session_witness:
  "page low_space_session = PAGE_RECORDING \<and> start_ts low_space_session \<noteq> 0
   \<and> free_space low_space_session < MIN_FS_SPACE \<and> index low_space_session = 1
   \<and> start_ts (stepcounter_logging_face_loop EVENT_TICK low_space_session) = 0
   \<and> index (stepcounter_logging_face_loop EVENT_TICK low_space_session) = 2
   \<and> \<not> file_open (stepcounter_logging_face_loop EVENT_TICK low_space_session)
   \<and> page (stepcounter_logging_face_loop EVENT_TICK low_space_session) = PAGE_LABELING
   \<and> tick_frequency (stepcounter_logging_face_loop EVENT_TICK low_space_session) = 4
   \<and> log_file (stepcounter_logging_face_loop EVENT_TICK low_space_session) = Some [1, 6, 0, 0]
   \<and> error (stepcounter_logging_face_loop EVENT_TICK low_space_session) = 0
   \<and> log_file (stepcounter_logging_face_loop EVENT_TICK
         (low_space_session\<lparr>sensor_fifo := \<lparr>readings = [], count = 0\<rparr>\<rparr>)) = Some []
   \<and> log_file (stepcounter_logging_face_loop EVENT_TICK
         (low_space_session\<lparr>write_results := [0]\<rparr>)) = Some []
   \<and> error (stepcounter_logging_face_loop EVENT_TICK
         (low_space_session\<lparr>write_results := [0]\<rparr>)) = ERROR_WRITE_DATA
   \<and> page started_with_15_bytes = PAGE_RECORDING \<and> start_ts started_with_15_bytes \<noteq> 0
   \<and> free_space started_with_15_bytes = 2
   \<and> log_file started_with_15_bytes = Some [0x23, 0x42, 1, 0, 0, 0, 0, 2, 1, 0xe8, 3, 0, 0]
   \<and> log_file (stepcounter_logging_face_loop EVENT_TICK started_with_15_bytes)
       = Some [0x23, 0x42, 1, 0, 0, 0, 0, 2, 1, 0xe8, 3, 0, 0, 1]
   \<and> error (stepcounter_logging_face_loop EVENT_TICK started_with_15_bytes) = ERROR_WRITE_DATA
   \<and> page (stepcounter_logging_face_loop EVENT_TICK started_with_15_bytes) = PAGE_LABELING"
proof -
  let ?tick = "stepcounter_logging_face_loop EVENT_TICK"
  let ?a = "low_space_session"
  let ?b = "low_space_session\<lparr>sensor_fifo := \<lparr>readings = [], count = 0\<rparr>\<rparr>"
  let ?c = "low_space_session\<lparr>write_results := [0]\<rparr>"
  let ?d = "started_with_15_bytes"
  let ?s = "\<lparr>x = 3, y = - 4, z = 0\<rparr> :: lis2dw_reading"
  have ha: "page ?a = PAGE_RECORDING" "start_ts ?a \<noteq> 0" "free_space ?a < MIN_FS_SPACE"
    by code_simp+
  have hb: "page ?b = PAGE_RECORDING" "start_ts ?b \<noteq> 0" "free_space ?b < MIN_FS_SPACE"
    by code_simp+
  have hc: "page ?c = PAGE_RECORDING" "start_ts ?c \<noteq> 0" "free_space ?c < MIN_FS_SPACE"
    by code_simp+
  have hd: "page ?d = PAGE_RECORDING" "start_ts ?d \<noteq> 0" "free_space ?d < MIN_FS_SPACE"
    by code_simp+
  note ta = quota_tick_ends_session [OF ha, where r = 0 and rs = "[]" and ?r2.0 = 0
      and ?rs2.0 = "[]" and s = ?s and ss = "[]"]
  note tb = quota_tick_ends_session [OF hb, where r = 0 and rs = "[]" and ?r2.0 = 0
      and ?rs2.0 = "[]" and s = ?s and ss = "[]"]
  note tc = quota_tick_ends_session [OF hc, where r = 0 and rs = "[]" and ?r2.0 = 0
      and ?rs2.0 = "[]" and s = ?s and ss = "[]"]
  note td = quota_tick_ends_session [OF hd, where r = 0 and rs = "[]" and ?r2.0 = 0
      and ?rs2.0 = "[]" and s = ?s and ss = "[]"]
  have ia: "count (lis2dw_read_fifo ?a) \<noteq> 0 \<and> file_open ?a \<and> write_results ?a = []"
    by code_simp
  have ib: "count (lis2dw_read_fifo ?b) = 0"
    by code_simp
  have ic: "count (lis2dw_read_fifo ?c) \<noteq> 0 \<and> file_open ?c \<and> write_results ?c = 0 # []
            \<and> (word_of_int 0 :: 32 word) \<noteq> 1"
    by code_simp
  have i4: "count (lis2dw_read_fifo ?d) \<noteq> 0 \<and> file_open ?d \<and> write_results ?d = 1 # 0 # []
            \<and> (word_of_int 0 :: 32 word) \<noteq> 3
            \<and> data_type ?d AND LOG_DATA_XYZ = 0 \<and> data_type ?d AND LOG_DATA_MAG \<noteq> 0
            \<and> readings (lis2dw_read_fifo ?d) = ?s # []"
    by code_simp
  have va: "index ?a = 1" "error ?a = 0"
    "log_contents ?a @ data_block (data_type ?a) (lis2dw_read_fifo ?a) = [1, 6, 0, 0]"
    by code_simp+
  have vb: "log_file ?b = Some []"
    by code_simp
  have vc: "log_contents ?c = []"
    by code_simp
  have vd: "free_space ?d = 2"
    "log_file ?d = Some [0x23, 0x42, 1, 0, 0, 0, 0, 2, 1, 0xe8, 3, 0, 0]"
    "log_contents ?d = [0x23, 0x42, 1, 0, 0, 0, 0, 2, 1, 0xe8, 3, 0, 0]"
    "count (lis2dw_read_fifo ?d) = 1"
    by code_simp+
  from ta ia have ra: "start_ts (?tick ?a) = 0 \<and> index (?tick ?a) = index ?a + 1
    \<and> \<not> file_open (?tick ?a) \<and> page (?tick ?a) = PAGE_LABELING \<and> tick_frequency (?tick ?a) = 4
    \<and> log_file (?tick ?a) = Some (log_contents ?a @ data_block (data_type ?a) (lis2dw_read_fifo ?a))
    \<and> error (?tick ?a) = error ?a"
    by blast
  from tb ib have rb: "log_file (?tick ?b) = log_file ?b"
    by blast
  from tc ic have rc: "log_file (?tick ?c) = Some (log_contents ?c @ take (nat 0) [count (lis2dw_read_fifo ?c)])
    \<and> error (?tick ?c) = ERROR_WRITE_DATA"
    by blast
  have rd: "log_file (?tick ?d)
      = Some (log_contents ?d @ count (lis2dw_read_fifo ?d) # take (nat 0) (mag_bytes (data_type ?d) ?s))
    \<and> error (?tick ?d) = ERROR_WRITE_DATA"
    by (rule mp [OF td [THEN conjunct2, THEN conjunct2, THEN conjunct2, THEN conjunct2, THEN conjunct2, THEN conjunct2, THEN conjunct2, THEN conjunct2, THEN conjunct2, THEN conjunct2]]) (rule i4)
  have rd': "page (?tick ?d) = PAGE_LABELING"
    by (rule td [THEN conjunct2, THEN conjunct2, THEN conjunct2, THEN conjunct1])
  show ?thesis
    using ha hd(1,2) ra rb rc rd rd' by (simp add: va vb vc vd)
qed

end
